theory Spec2Isabelle
  imports Complex_Main
begin

section \<open>Common types\<close>

text \<open>
  Documents are addressed by MongoDB object ids, modelled as natural numbers.  A JavaScript
  \<open>Date\<close> is its number of milliseconds since the epoch.  \<open>Number\<close> fields that carry
  prices, durations and discounts are exact rationals.
\<close>

type_synonym oid = nat
type_synonym instant = int

text \<open>
  Every \<open>return res.status(...)\<close> of the controllers that is not a success is one
  constructor of \<open>failure\<close>, named after the message the handler sends.
\<close>

datatype failure =
    Validation_errors             \<comment> \<open>400, the express-validator errors array\<close>
  | Select_services_or_combo      \<comment> \<open>400 'Please select services or a combo'\<close>
  | Slot_already_booked           \<comment> \<open>400 'This time slot is already booked'\<close>
  | Combo_not_available           \<comment> \<open>400 'Selected combo is not available'\<close>
  | Services_not_available        \<comment> \<open>400 'Some selected services are not available'\<close>
  | Appointment_not_found         \<comment> \<open>404 'Appointment not found'\<close>
  | Cannot_cancel                 \<comment> \<open>400 'Cannot cancel an appointment that is ...'\<close>
  | Cannot_reschedule             \<comment> \<open>400 'Cannot reschedule an appointment that is ...'\<close>
  | Combo_not_found               \<comment> \<open>404 'Combo not found'\<close>
  | Server_error                  \<comment> \<open>500 'Server Error', every \<open>catch\<close> block\<close>
  | Staff_and_action_required     \<comment> \<open>400 'Staff ID and action are required'\<close>
  | Bad_action                    \<comment> \<open>400 'Action must be either checkIn or checkOut'\<close>
  | Invalid_staff_id              \<comment> \<open>400 'Invalid staff ID format'\<close>
  | Staff_not_found_or_inactive   \<comment> \<open>404 'Staff member not found or inactive'\<close>
  | Invalid_date_format           \<comment> \<open>400 'Invalid date format'\<close>
  | Invalid_time_format           \<comment> \<open>400 'Invalid time format'\<close>
  | Invalid_time_values           \<comment> \<open>400 'Invalid time values'\<close>
  | Already_checked_in            \<comment> \<open>400 'Already checked in today'\<close>
  | Checkout_without_checkin      \<comment> \<open>400 'Cannot check out without checking in first'\<close>
  | Already_checked_out           \<comment> \<open>400 'Already checked out today'\<close>
  | Validation_failed             \<comment> \<open>400 'Validation failed', a Mongoose ValidationError\<close>
  | Failed_to_record              \<comment> \<open>500 'Failed to record attendance'\<close>
  | Date_required                 \<comment> \<open>400 'Date is required'\<close>
  | Past_holiday                  \<comment> \<open>400 'Cannot declare holiday for past dates'\<close>

text \<open>The error taxonomy of the specification, and the kind of each failure.\<close>

datatype error = VALIDATION | NOT_FOUND | CONFLICT | INVALID_STATE | ALREADY_DONE | SERVER

fun kind :: "failure \<Rightarrow> error" where
  "kind Validation_errors = VALIDATION"
| "kind Select_services_or_combo = VALIDATION"
| "kind Slot_already_booked = CONFLICT"
| "kind Combo_not_available = NOT_FOUND"
| "kind Services_not_available = NOT_FOUND"
| "kind Appointment_not_found = NOT_FOUND"
| "kind Cannot_cancel = INVALID_STATE"
| "kind Cannot_reschedule = INVALID_STATE"
| "kind Combo_not_found = NOT_FOUND"
| "kind Server_error = SERVER"
| "kind Staff_and_action_required = VALIDATION"
| "kind Bad_action = VALIDATION"
| "kind Invalid_staff_id = VALIDATION"
| "kind Staff_not_found_or_inactive = NOT_FOUND"
| "kind Invalid_date_format = VALIDATION"
| "kind Invalid_time_format = VALIDATION"
| "kind Invalid_time_values = VALIDATION"
| "kind Already_checked_in = ALREADY_DONE"
| "kind Checkout_without_checkin = INVALID_STATE"
| "kind Already_checked_out = ALREADY_DONE"
| "kind Validation_failed = VALIDATION"
| "kind Failed_to_record = SERVER"
| "kind Date_required = VALIDATION"
| "kind Past_holiday = VALIDATION"

section \<open>Catalog: services and combos\<close>

record service =
  svc_id :: oid
  duration :: rat
  price :: rat
  svc_isActive :: bool

record combo_member =
  service :: oid
  sequence :: "rat option"

record combo =
  combo_id :: oid
  combo_name :: string
  description :: "string option"
  members :: "combo_member list"     \<comment> \<open>the schema's \<open>services\<close> array\<close>
  gender :: string
  totalDuration :: rat
  totalPrice :: rat
  discount :: rat
  combo_isActive :: bool

section \<open>Appointments\<close>

datatype status = pending | confirmed | completed | cancelled | rescheduled

record appointment =
  appt_id :: oid
  customer :: oid
  services :: "oid list"
  combo :: "oid option"
  appointmentDate :: instant
  timeSlot :: string
  status :: status
  appt_notes :: "string option"

text \<open>
  The \<open>createdAt\<close> stamp of the schema, which no handler reads, is left out.
  The enumeration of the \<open>timeSlot\<close> path, in the order the schema lists it:
\<close>

definition time_slots :: "string list" where
  "time_slots = [''9:00 AM'', ''10:00 AM'', ''11:00 AM'', ''12:00 PM'',
                 ''1:00 PM'', ''2:00 PM'', ''3:00 PM'', ''4:00 PM'', ''5:00 PM'']"

text \<open>
  The collection carries the index
  \<open>appointmentSchema.index({ appointmentDate: 1, timeSlot: 1 }, { unique: true })\<close>:
  a write that would leave two documents with the same date and slot is refused by the
  store with a duplicate-key error, whatever the status of either document.
\<close>

definition same_slot :: "appointment \<Rightarrow> appointment \<Rightarrow> bool" where
  "same_slot a b \<longleftrightarrow> appointmentDate a = appointmentDate b \<and> timeSlot a = timeSlot b"

definition new_oid :: "appointment list \<Rightarrow> oid" where
  "new_oid xs = Suc (fold max (map appt_id xs) 0)"

text \<open>\<open>save\<close> of a new document: an insert, refused on a duplicate key.\<close>

definition insert_appointment :: "appointment list \<Rightarrow> appointment \<Rightarrow> appointment list option" where
  "insert_appointment xs a =
     (if list_ex (\<lambda>b. same_slot b a) xs then None else Some (xs @ [a]))"

text \<open>
  \<open>save\<close> of a loaded document: only the modified paths are written, so the index is
  consulted only when the date or the slot changed.
\<close>

definition save_appointment ::
  "appointment list \<Rightarrow> appointment \<Rightarrow> appointment \<Rightarrow> appointment list option" where
  "save_appointment xs old new =
     (if \<not> same_slot new old \<and> list_ex (\<lambda>b. appt_id b \<noteq> appt_id new \<and> same_slot b new) xs
      then None
      else Some (map (\<lambda>b. if appt_id b = appt_id new then new else b) xs))"

definition active :: "appointment \<Rightarrow> bool" where
  "active a \<longleftrightarrow> status a = pending \<or> status a = confirmed"

record create_req =
  user :: oid
  req_services :: "oid list option"
  req_combo :: "oid option"
  req_appointmentDate :: "instant option"  \<comment> \<open>\<open>None\<close>: not an ISO 8601 date\<close>
  req_timeSlot :: string
  req_notes :: "string option"

definition createAppointment ::
  "service list \<Rightarrow> combo list \<Rightarrow> create_req \<Rightarrow> appointment list
    \<Rightarrow> (failure + appointment) \<times> appointment list" where
  "createAppointment svcs combos req xs =
    (case req_appointmentDate req of
       None \<Rightarrow> (Inl Validation_errors, xs)
     | Some d \<Rightarrow>
        if req_timeSlot req \<notin> set time_slots then (Inl Validation_errors, xs)
        else if (req_services req = None \<or> req_services req = Some []) \<and> req_combo req = None
          then (Inl Select_services_or_combo, xs)
        else if list_ex (\<lambda>a. appointmentDate a = d \<and> timeSlot a = req_timeSlot req \<and> active a) xs
          then (Inl Slot_already_booked, xs)
        else
          (case req_combo req of
             Some c \<Rightarrow>
               if \<not> list_ex (\<lambda>k. combo_id k = c \<and> combo_isActive k) combos
               then (Inl Combo_not_available, xs)
               else
                 (let a = \<lparr>appt_id = new_oid xs, customer = user req, services = [],
                           combo = Some c, appointmentDate = d, timeSlot = req_timeSlot req,
                           status = pending, appt_notes = req_notes req\<rparr>
                  in case insert_appointment xs a of
                       None \<Rightarrow> (Inl Server_error, xs)
                     | Some xs' \<Rightarrow> (Inr a, xs'))
           | None \<Rightarrow>
               (let ss = (case req_services req of None \<Rightarrow> [] | Some l \<Rightarrow> l) in
                if length (filter (\<lambda>s. svc_id s \<in> set ss \<and> svc_isActive s) svcs) \<noteq> length ss
                then (Inl Services_not_available, xs)
                else
                 (let a = \<lparr>appt_id = new_oid xs, customer = user req, services = ss,
                           combo = None, appointmentDate = d, timeSlot = req_timeSlot req,
                           status = pending, appt_notes = req_notes req\<rparr>
                  in case insert_appointment xs a of
                       None \<Rightarrow> (Inl Server_error, xs)
                     | Some xs' \<Rightarrow> (Inr a, xs')))))"

definition cancelAppointment ::
  "oid \<Rightarrow> oid \<Rightarrow> appointment list \<Rightarrow> (failure + appointment) \<times> appointment list" where
  "cancelAppointment i u xs =
    (case find (\<lambda>a. appt_id a = i \<and> customer a = u) xs of
       None \<Rightarrow> (Inl Appointment_not_found, xs)
     | Some a \<Rightarrow>
        if status a = completed \<or> status a = cancelled then (Inl Cannot_cancel, xs)
        else
          (let a' = a\<lparr>status := cancelled\<rparr> in
           case save_appointment xs a a' of
             None \<Rightarrow> (Inl Server_error, xs)
           | Some xs' \<Rightarrow> (Inr a', xs')))"

record reschedule_req =
  new_appointmentDate :: "instant option"
  new_timeSlot :: string

definition rescheduleAppointment ::
  "oid \<Rightarrow> reschedule_req \<Rightarrow> appointment list \<Rightarrow> (failure + appointment) \<times> appointment list" where
  "rescheduleAppointment i req xs =
    (case new_appointmentDate req of
       None \<Rightarrow> (Inl Validation_errors, xs)
     | Some d \<Rightarrow>
        if new_timeSlot req \<notin> set time_slots then (Inl Validation_errors, xs)
        else
          (case find (\<lambda>a. appt_id a = i) xs of
             None \<Rightarrow> (Inl Appointment_not_found, xs)
           | Some a \<Rightarrow>
              if status a = completed \<or> status a = cancelled then (Inl Cannot_reschedule, xs)
              else if list_ex (\<lambda>b. appointmentDate b = d \<and> timeSlot b = new_timeSlot req
                                   \<and> active b \<and> appt_id b \<noteq> i) xs
                then (Inl Slot_already_booked, xs)
              else
                (let a' = a\<lparr>appointmentDate := d, timeSlot := new_timeSlot req,
                             status := rescheduled\<rparr> in
                 case save_appointment xs a a' of
                   None \<Rightarrow> (Inl Server_error, xs)
                 | Some xs' \<Rightarrow> (Inr a', xs'))))"

subsection \<open>Sequences of bookings\<close>

text \<open>
  A history of the scheduler: bookings and reschedulings applied one after the other.
  Each booking sees the catalog as it is at that moment.
\<close>

datatype op =
    Create "service list" "combo list" create_req
  | Reschedule oid reschedule_req

fun step :: "appointment list \<Rightarrow> op \<Rightarrow> appointment list" where
  "step xs (Create svcs combos r) = snd (createAppointment svcs combos r xs)"
| "step xs (Reschedule i r) = snd (rescheduleAppointment i r xs)"

definition run :: "op list \<Rightarrow> appointment list \<Rightarrow> appointment list" where
  "run ops xs = foldl step xs ops"

definition holders :: "instant \<Rightarrow> string \<Rightarrow> appointment list \<Rightarrow> appointment list" where
  "holders d s xs = filter (\<lambda>a. appointmentDate a = d \<and> timeSlot a = s \<and> active a) xs"

definition slot_inv :: "appointment list \<Rightarrow> bool" where
  "slot_inv xs \<longleftrightarrow> (\<forall>d s. length (holders d s xs) \<le> 1)"

text \<open>
  The calendar day of an instant, in UTC.  The handlers never take it: the conflict queries
  and the index compare \<open>appointmentDate\<close> as the instant that \<open>toDate()\<close> made of
  the request's ISO 8601 string, which may carry a time of day.
\<close>

definition calendar_day :: "instant \<Rightarrow> int" where
  "calendar_day t = t div 86400000"

subsection \<open>Today's appointments\<close>

text \<open>
  \<open>setHours(h, m, s, ms)\<close> works on the server's local clock; \<open>tz\<close> is
  \<open>getTimezoneOffset()\<close>, the minutes to add to local time to reach UTC, taken as constant.
\<close>

definition setHours :: "int \<Rightarrow> instant \<Rightarrow> int \<Rightarrow> int \<Rightarrow> int \<Rightarrow> int \<Rightarrow> instant" where
  "setHours tz t h m s ms =
     ((t - tz * 60000) div 86400000) * 86400000 + tz * 60000
       + h * 3600000 + m * 60000 + s * 1000 + ms"

text \<open>
  \<open>.sort({ timeSlot: 1 })\<close> on a \<open>String\<close> path: MongoDB compares the strings
  character by character.  The sort is written as an insertion sort, which keeps documents
  of equal slot in the order of the collection.
\<close>

fun str_le :: "string \<Rightarrow> string \<Rightarrow> bool" where
  "str_le [] ys = True"
| "str_le (x # xs) [] = False"
| "str_le (x # xs) (y # ys) =
     ((of_char x :: nat) < of_char y \<or> (x = y \<and> str_le xs ys))"

fun insort_timeSlot :: "appointment \<Rightarrow> appointment list \<Rightarrow> appointment list" where
  "insort_timeSlot a [] = [a]"
| "insort_timeSlot a (b # bs) =
     (if str_le (timeSlot a) (timeSlot b) then a # b # bs else b # insort_timeSlot a bs)"

definition sort_timeSlot :: "appointment list \<Rightarrow> appointment list" where
  "sort_timeSlot xs = foldr insort_timeSlot xs []"

text \<open>
  \<open>populate\<close> replaces a reference by the document it names, or by nothing when the
  document is gone; \<open>service.duration || 0\<close> reads a missing or zero duration as 0.
\<close>

definition appointment_totalDuration :: "service list \<Rightarrow> combo list \<Rightarrow> appointment \<Rightarrow> rat" where
  "appointment_totalDuration svcs combos a =
     (case (case combo a of None \<Rightarrow> None | Some c \<Rightarrow> find (\<lambda>k. combo_id k = c) combos) of
        Some k \<Rightarrow> totalDuration k
      | None \<Rightarrow>
          sum_list (map duration
            (concat (map (\<lambda>i. case find (\<lambda>s. svc_id s = i) svcs of
                                  None \<Rightarrow> [] | Some s \<Rightarrow> [s]) (services a)))))"

definition getTodaysAppointments ::
  "service list \<Rightarrow> combo list \<Rightarrow> instant \<Rightarrow> int \<Rightarrow> appointment list \<Rightarrow> (appointment \<times> rat) list" where
  "getTodaysAppointments svcs combos now tz xs =
     (let todayStart = setHours tz now 0 0 0 0;
          todayEnd = setHours tz now 23 59 59 999
      in map (\<lambda>a. (a, appointment_totalDuration svcs combos a))
           (sort_timeSlot
             (filter (\<lambda>a. todayStart \<le> appointmentDate a \<and> appointmentDate a \<le> todayEnd
                          \<and> (status a = pending \<or> status a = confirmed \<or> status a = rescheduled))
                xs)))"

text \<open>The position of a slot in the business-hours enumeration.\<close>

fun slot_rank_in :: "string list \<Rightarrow> string \<Rightarrow> nat" where
  "slot_rank_in [] s = 0"
| "slot_rank_in (t # ts) s = (if s = t then 0 else Suc (slot_rank_in ts s))"

definition slot_rank :: "string \<Rightarrow> nat" where
  "slot_rank s = slot_rank_in time_slots s"

subsection \<open>Sample data\<close>

definition june1 :: instant where
  "june1 = 1717200000000"    \<comment> \<open>2024-06-01T00:00:00Z\<close>

definition haircut :: service where
  "haircut = \<lparr>svc_id = 1, duration = 30, price = 100, svc_isActive = True\<rparr>"

definition shave :: service where
  "shave = \<lparr>svc_id = 2, duration = 20, price = 200, svc_isActive = False\<rparr>"

definition groom :: combo where
  "groom = \<lparr>combo_id = 7, combo_name = ''Groom'', description = None,
            members = [\<lparr>service = 1, sequence = Some 1\<rparr>, \<lparr>service = 2, sequence = Some 2\<rparr>],
            gender = ''unisex'', totalDuration = 50, totalPrice = 300, discount = 0,
            combo_isActive = True\<rparr>"

definition booking :: "oid \<Rightarrow> oid \<Rightarrow> string \<Rightarrow> status \<Rightarrow> appointment" where
  "booking i c s st =
     \<lparr>appt_id = i, customer = c, services = [1], combo = None, appointmentDate = june1,
      timeSlot = s, status = st, appt_notes = None\<rparr>"

definition request :: "oid list option \<Rightarrow> oid option \<Rightarrow> string \<Rightarrow> create_req" where
  "request ss c s =
     \<lparr>user = 42, req_services = ss, req_combo = c, req_appointmentDate = Some june1,
      req_timeSlot = s, req_notes = None\<rparr>"

definition request_at :: "instant \<Rightarrow> string \<Rightarrow> create_req" where
  "request_at t s =
     \<lparr>user = 42, req_services = Some [1], req_combo = None, req_appointmentDate = Some t,
      req_timeSlot = s, req_notes = None\<rparr>"

definition booking_at :: "oid \<Rightarrow> instant \<Rightarrow> string \<Rightarrow> appointment" where
  "booking_at i t s =
     \<lparr>appt_id = i, customer = 42, services = [1], combo = None, appointmentDate = t,
      timeSlot = s, status = pending, appt_notes = None\<rparr>"

section \<open>Combos\<close>

record update_combo_req =
  upd_name :: "string option"
  upd_description :: "string option"
  upd_services :: "combo_member list option"
  upd_discount :: "rat option"
  upd_gender :: "string option"

text \<open>
  The checks of the route \<open>PUT /api/combos/:id\<close>; every one is \<open>optional()\<close>, so an
  absent field passes.
\<close>

definition update_combo_checks :: "update_combo_req \<Rightarrow> bool" where
  "update_combo_checks r \<longleftrightarrow>
     upd_name r \<noteq> Some []
     \<and> (case upd_discount r of None \<Rightarrow> True | Some d \<Rightarrow> 0 \<le> d \<and> d \<le> 100)
     \<and> (case upd_gender r of None \<Rightarrow> True
          | Some g \<Rightarrow> g \<in> set [''male'', ''female'', ''unisex''])"

text \<open>
  \<open>validateAndGetServices\<close>: the loop over the requested members, from index \<open>i\<close>.
  \<open>None\<close> is the thrown \<open>Error\<close> for a member whose service is missing or inactive.
  Each detail is the member, with \<open>svc.sequence || i + 1\<close>, and the service found.
\<close>

fun validateAndGetServices ::
  "service list \<Rightarrow> nat \<Rightarrow> combo_member list \<Rightarrow> (combo_member \<times> service) list option" where
  "validateAndGetServices svcs i [] = Some []"
| "validateAndGetServices svcs i (m # ms) =
     (case find (\<lambda>s. svc_id s = service m) svcs of
        None \<Rightarrow> None
      | Some s \<Rightarrow>
          if \<not> svc_isActive s then None
          else
            (case validateAndGetServices svcs (Suc i) ms of
               None \<Rightarrow> None
             | Some ds \<Rightarrow>
                 Some ((m\<lparr>sequence :=
                          (if sequence m = None \<or> sequence m = Some 0
                           then Some (of_nat i + 1) else sequence m)\<rparr>, s) # ds)))"

text \<open>
  \<open>populate('services.service', 'price')\<close>: each member beside the service document
  it names, if that document exists.  Whether the service is active plays no part.
\<close>

definition populate_members :: "service list \<Rightarrow> combo_member list \<Rightarrow> (combo_member \<times> service option) list" where
  "populate_members svcs ms = map (\<lambda>m. (m, find (\<lambda>s. svc_id s = service m) svcs)) ms"

text \<open>
  \<open>calculatePrice\<close>.  The members of the schema have the paths \<open>service\<close> and
  \<open>sequence\<close> only, so \<open>svc.price\<close> is always undefined and the price is that of the
  populated service, or 0 when there is none.
\<close>

definition calculatePrice :: "(combo_member \<times> service option) list \<Rightarrow> rat \<Rightarrow> rat" where
  "calculatePrice ps d =
     (let basePrice = sum_list (map (\<lambda>(m, s). case s of None \<Rightarrow> 0 | Some v \<Rightarrow> price v) ps)
      in max 0 (basePrice - basePrice * d / 100))"

text \<open>The handler's assignments of the fields that the request carries.\<close>

definition update_fields :: "update_combo_req \<Rightarrow> combo \<Rightarrow> combo" where
  "update_fields r k =
     k\<lparr>combo_name := (case upd_name r of None \<Rightarrow> combo_name k | Some n \<Rightarrow> n),
       description := (case upd_description r of None \<Rightarrow> description k | Some t \<Rightarrow> Some t),
       gender := (case upd_gender r of None \<Rightarrow> gender k | Some g \<Rightarrow> g),
       discount := (case upd_discount r of None \<Rightarrow> discount k | Some d \<Rightarrow> d)\<rparr>"

text \<open>
  The handler's treatment of a supplied service list; \<open>None\<close> is the exception of
  \<open>validateAndGetServices\<close>.
\<close>

definition update_services :: "service list \<Rightarrow> update_combo_req \<Rightarrow> combo \<Rightarrow> combo option" where
  "update_services svcs r k =
     (case upd_services r of
        None \<Rightarrow> Some k
      | Some ms \<Rightarrow>
          (case validateAndGetServices svcs 0 ms of
             None \<Rightarrow> None
           | Some ds \<Rightarrow>
               Some (k\<lparr>members := map fst ds,
                       totalDuration := sum_list (map (duration \<circ> snd) ds)\<rparr>)))"

definition updateCombo ::
  "service list \<Rightarrow> update_combo_req \<Rightarrow> oid \<Rightarrow> combo list \<Rightarrow> (failure + combo) \<times> combo list" where
  "updateCombo svcs r i combos =
     (if \<not> update_combo_checks r then (Inl Validation_errors, combos)
      else
        (case find (\<lambda>k. combo_id k = i) combos of
           None \<Rightarrow> (Inl Combo_not_found, combos)
         | Some k \<Rightarrow>
            (case update_services svcs r (update_fields r k) of
               None \<Rightarrow> (Inl Server_error, combos)
             | Some k' \<Rightarrow>
                 (let k3 = k'\<lparr>totalPrice :=
                              calculatePrice (populate_members svcs (members k')) (discount k')\<rparr>
                  in (Inr k3, map (\<lambda>b. if combo_id b = i then k3 else b) combos)))))"

text \<open>
  The price as the specification words it: the sum over the member services that are
  active, reduced by the discount percentage and floored at zero.
\<close>

definition active_member_price :: "service list \<Rightarrow> combo \<Rightarrow> rat" where
  "active_member_price svcs k =
     (let base = sum_list (map (\<lambda>m. case find (\<lambda>s. svc_id s = service m) svcs of
                                        None \<Rightarrow> 0
                                      | Some v \<Rightarrow> if svc_isActive v then price v else 0)
                               (members k))
      in max 0 (base - base * discount k / 100))"

text \<open>The same sum over every member whose service exists, active or not.\<close>

definition member_price :: "service list \<Rightarrow> combo \<Rightarrow> rat" where
  "member_price svcs k =
     (let base = sum_list (map (\<lambda>m. case find (\<lambda>s. svc_id s = service m) svcs of
                                        None \<Rightarrow> 0 | Some v \<Rightarrow> price v)
                               (members k))
      in max 0 (base - base * discount k / 100))"

definition only_discount :: "rat \<Rightarrow> update_combo_req" where
  "only_discount d =
     \<lparr>upd_name = None, upd_description = None, upd_services = None,
      upd_discount = Some d, upd_gender = None\<rparr>"

definition with_services :: "combo_member list \<Rightarrow> rat \<Rightarrow> update_combo_req" where
  "with_services ms d =
     \<lparr>upd_name = None, upd_description = None, upd_services = Some ms,
      upd_discount = Some d, upd_gender = None\<rparr>"

section \<open>Staff attendance\<close>

text \<open>
  Of a staff member the attendance handlers read the id and the active flag only; the
  timestamps that Mongoose adds to an attendance record are left out.
\<close>

record staff =
  staff_id :: oid
  staff_isActive :: bool

datatype attendance_status = Present | Absent | Late | Half_Day | Holiday

record attendance =
  staffId :: oid
  date :: instant
  checkIn :: "instant option"
  checkOut :: "instant option"
  att_status :: attendance_status
  isHoliday :: bool
  att_notes :: "string option"

text \<open>
  The key of the index
  \<open>attendanceSchema.index({ staffId: 1, date: 1 }, { unique: true })\<close>.
\<close>

definition att_key :: "attendance \<Rightarrow> oid \<times> instant" where
  "att_key a = (staffId a, date a)"

text \<open>
  A request field that the handler parses: absent, present but rejected by the handler's
  format test, or present with the value the handler reads from it.
\<close>

datatype 'a field = Missing | Malformed | Given 'a

text \<open>
  A \<open>time\<close> string accepted by the handler's regular expression: hours, minutes, and
  the meridiem when the string has one.
\<close>

datatype meridiem = AM | PM

record clock =
  hh :: nat
  mm :: nat
  period :: "meridiem option"

record attendance_req =
  req_staffId :: "oid field"
  req_action :: "string option"
  req_time :: "clock field"
  req_date :: "instant field"    \<comment> \<open>the value is \<open>Date.UTC(year, month - 1, day)\<close>\<close>

definition getCurrentUTCDate :: "instant \<Rightarrow> instant" where
  "getCurrentUTCDate now = (now div 86400000) * 86400000"

text \<open>The day of the record: the supplied date, else the current UTC day.\<close>

definition record_date :: "instant \<Rightarrow> attendance_req \<Rightarrow> failure + instant" where
  "record_date now r =
     (case req_date r of
        Missing \<Rightarrow> Inr (getCurrentUTCDate now)
      | Malformed \<Rightarrow> Inl Invalid_date_format
      | Given d \<Rightarrow> Inr d)"

text \<open>
  The instant of the action: the supplied clock time set on the record's day in local
  time and then shifted by the timezone offset, else the current instant.
\<close>

definition record_time :: "instant \<Rightarrow> int \<Rightarrow> instant \<Rightarrow> attendance_req \<Rightarrow> failure + instant" where
  "record_time now tz recordDate r =
     (case req_time r of
        Missing \<Rightarrow> Inr now
      | Malformed \<Rightarrow> Inl Invalid_time_format
      | Given c \<Rightarrow>
          if 23 < hh c \<or> 59 < mm c then Inl Invalid_time_format
          else
            (let hours = (case period c of
                            None \<Rightarrow> hh c
                          | Some PM \<Rightarrow> if hh c < 12 then hh c + 12 else hh c
                          | Some AM \<Rightarrow> if hh c = 12 then 0 else hh c)
             in if 23 < hours \<or> 59 < mm c then Inl Invalid_time_values
                else Inr (setHours tz recordDate (int hours) (int (mm c)) 0 0 - tz * 60000)))"

text \<open>
  The validators of the schema, run by \<open>save\<close>: neither instant lies in the future, and
  a check-out is not before the check-in of the same document.
\<close>

definition attendance_valid :: "instant \<Rightarrow> attendance \<Rightarrow> bool" where
  "attendance_valid now a \<longleftrightarrow>
     (case checkIn a of None \<Rightarrow> True | Some v \<Rightarrow> v \<le> now)
     \<and> (case checkOut a of
          None \<Rightarrow> True
        | Some v \<Rightarrow> v \<le> now \<and> (case checkIn a of None \<Rightarrow> True | Some c \<Rightarrow> c \<le> v))"

fun replace_first :: "('a \<Rightarrow> bool) \<Rightarrow> 'a \<Rightarrow> 'a list \<Rightarrow> 'a list" where
  "replace_first P a [] = []"
| "replace_first P a (r # rs) = (if P r then a # rs else r # replace_first P a rs)"

text \<open>
  The end of the handler: \<open>attendance[action] = recordTime\<close> and \<open>save\<close>, on the
  record found or, when \<open>existingRecord\<close> is \<open>None\<close>, on a new one.  The answer on
  success is the stored record.  A new record is appended; the unique index on staff and
  day cannot refuse it, since the lookup before found no record of that staff and day.
\<close>

definition write_action ::
  "instant \<Rightarrow> oid \<Rightarrow> instant \<Rightarrow> instant \<Rightarrow> string \<Rightarrow> attendance option \<Rightarrow> attendance list
     \<Rightarrow> (failure + attendance) \<times> attendance list" where
  "write_action now s recordDate recordTime action existingRecord xs =
     (let attendance0 =
            (case existingRecord of
               Some a \<Rightarrow> a
             | None \<Rightarrow>
                 \<lparr>staffId = s, date = recordDate, checkIn = None, checkOut = None,
                  att_status = Present, isHoliday = False, att_notes = None\<rparr>);
          attendance1 =
            (if action = ''checkIn'' then attendance0\<lparr>checkIn := Some recordTime\<rparr>
             else attendance0\<lparr>checkOut := Some recordTime\<rparr>)
      in
        if \<not> attendance_valid now attendance1 then (Inl Validation_failed, xs)
        else
          (Inr attendance1,
           case existingRecord of
             Some a \<Rightarrow> replace_first (\<lambda>a. staffId a = s \<and> date a = recordDate) attendance1 xs
           | None \<Rightarrow> xs @ [attendance1]))"

text \<open>The lookup of the record of the staff member and day, and the duplicate checks.\<close>

definition apply_action ::
  "instant \<Rightarrow> oid \<Rightarrow> instant \<Rightarrow> instant \<Rightarrow> string \<Rightarrow> attendance list
     \<Rightarrow> (failure + attendance) \<times> attendance list" where
  "apply_action now s recordDate recordTime action xs =
     (case find (\<lambda>a. staffId a = s \<and> date a = recordDate) xs of
        None \<Rightarrow> write_action now s recordDate recordTime action None xs
      | Some e \<Rightarrow>
          if action = ''checkIn'' \<and> checkIn e \<noteq> None then (Inl Already_checked_in, xs)
          else if action = ''checkOut'' \<and> checkIn e = None
            then (Inl Checkout_without_checkin, xs)
          else if action = ''checkOut'' \<and> checkOut e \<noteq> None
            then (Inl Already_checked_out, xs)
          else write_action now s recordDate recordTime action (Some e) xs)"

definition recordAttendance ::
  "instant \<Rightarrow> int \<Rightarrow> staff list \<Rightarrow> attendance_req \<Rightarrow> attendance list
     \<Rightarrow> (failure + attendance) \<times> attendance list" where
  "recordAttendance now tz staffs r xs =
     (case (req_staffId r, req_action r) of
        (Missing, _) \<Rightarrow> (Inl Staff_and_action_required, xs)
      | (_, None) \<Rightarrow> (Inl Staff_and_action_required, xs)
      | (Malformed, Some action) \<Rightarrow>
          if action = [] then (Inl Staff_and_action_required, xs)
          else if action \<noteq> ''checkIn'' \<and> action \<noteq> ''checkOut'' then (Inl Bad_action, xs)
          else (Inl Invalid_staff_id, xs)
      | (Given s, Some action) \<Rightarrow>
          if action = [] then (Inl Staff_and_action_required, xs)
          else if action \<noteq> ''checkIn'' \<and> action \<noteq> ''checkOut'' then (Inl Bad_action, xs)
          else
            (case find (\<lambda>m. staff_id m = s) staffs of
               None \<Rightarrow> (Inl Staff_not_found_or_inactive, xs)
             | Some m \<Rightarrow>
                 if \<not> staff_isActive m then (Inl Staff_not_found_or_inactive, xs)
                 else
                   (case record_date now r of
                      Inl e \<Rightarrow> (Inl e, xs)
                    | Inr recordDate \<Rightarrow>
                        (case record_time now tz recordDate r of
                           Inl e \<Rightarrow> (Inl e, xs)
                         | Inr recordTime \<Rightarrow>
                             apply_action now s recordDate recordTime action xs))))"

subsection \<open>Working hours\<close>

text \<open>
  \<open>toFixed(2)\<close> of a quotient of two integers: the nearest multiple of 1/100, the sign
  kept apart as the language defines it.  The quotient is a double, which can fall on
  either side of an exact tie between two multiples; \<open>up\<close> says, for a tie, whether the
  double lies at or above it.  Nothing below depends on the choice.
\<close>

definition toFixed2 :: "(rat \<Rightarrow> bool) \<Rightarrow> rat \<Rightarrow> rat" where
  "toFixed2 up x =
     (let a = \<bar>x\<bar>;
          n = \<lfloor>100 * a\<rfloor>;
          f = 100 * a - of_int n;
          m = (if f < 1 / 2 then n else if 1 / 2 < f then n + 1 else if up a then n + 1 else n)
      in sgn x * of_int m / 100)"

definition workingHours :: "(rat \<Rightarrow> bool) \<Rightarrow> attendance \<Rightarrow> rat" where
  "workingHours up a =
     (case checkIn a of
        None \<Rightarrow> 0
      | Some ci \<Rightarrow>
          (case checkOut a of
             None \<Rightarrow> 0
           | Some co \<Rightarrow> toFixed2 up (of_int (co - ci) / 3600000)))"

subsection \<open>Holidays\<close>

record holiday_req =
  hol_date :: "instant field"
  hol_notes :: "string option"

text \<open>
  One \<open>updateOne\<close> of the bulk write, with \<open>upsert: true\<close>: the first record of the
  staff member and day receives the \<open>$set\<close>; when there is none, a record made of the
  filter and the \<open>$set\<close> is inserted.
\<close>

definition holiday_record :: "oid \<Rightarrow> instant \<Rightarrow> string \<Rightarrow> attendance" where
  "holiday_record s d n =
     \<lparr>staffId = s, date = d, checkIn = None, checkOut = None, att_status = Holiday,
      isHoliday = True, att_notes = Some n\<rparr>"

fun upsert_holiday :: "instant \<Rightarrow> string \<Rightarrow> attendance list \<Rightarrow> oid \<Rightarrow> attendance list" where
  "upsert_holiday d n [] s = [holiday_record s d n]"
| "upsert_holiday d n (r # rs) s =
     (if staffId r = s \<and> date r = d
      then r\<lparr>att_status := Holiday, isHoliday := True, att_notes := Some n,
             checkIn := None, checkOut := None\<rparr> # rs
      else r # upsert_holiday d n rs s)"

text \<open>
  The answer of \<open>declareHoliday\<close>, without the two counters that the bulk write
  reports.
\<close>

record holiday_response =
  holiday_date :: instant
  staffCount :: nat

definition holiday_notes :: "holiday_req \<Rightarrow> string" where
  "holiday_notes r =
     (case hol_notes r of
        None \<Rightarrow> ''Public Holiday''
      | Some t \<Rightarrow> if t = [] then ''Public Holiday'' else t)"

definition declareHoliday ::
  "instant \<Rightarrow> staff list \<Rightarrow> holiday_req \<Rightarrow> attendance list
     \<Rightarrow> (failure + holiday_response) \<times> attendance list" where
  "declareHoliday now staffs r xs =
     (case hol_date r of
        Missing \<Rightarrow> (Inl Date_required, xs)
      | Malformed \<Rightarrow> (Inl Invalid_date_format, xs)
      | Given holidayDate \<Rightarrow>
          if holidayDate < getCurrentUTCDate now then (Inl Past_holiday, xs)
          else
            (let activeStaff = filter staff_isActive staffs
             in (Inr \<lparr>holiday_date = holidayDate, staffCount = length activeStaff\<rparr>,
                 foldl (upsert_holiday holidayDate (holiday_notes r)) xs
                   (map staff_id activeStaff))))"

text \<open>The records of a day, and those among them of the active staff.\<close>

definition records_on :: "instant \<Rightarrow> attendance list \<Rightarrow> attendance list" where
  "records_on d xs = filter (\<lambda>a. date a = d) xs"

definition active_ids :: "staff list \<Rightarrow> oid list" where
  "active_ids staffs = map staff_id (filter staff_isActive staffs)"

subsection \<open>Sample data\<close>

definition crew :: "staff list" where
  "crew = [\<lparr>staff_id = 1, staff_isActive = True\<rparr>, \<lparr>staff_id = 2, staff_isActive = False\<rparr>]"

definition punch :: "oid \<Rightarrow> string \<Rightarrow> nat \<Rightarrow> attendance_req" where
  "punch s a h =
     \<lparr>req_staffId = Given s, req_action = Some a,
      req_time = Given \<lparr>hh = h, mm = 0, period = None\<rparr>, req_date = Given june1\<rparr>"

definition present :: "oid \<Rightarrow> instant option \<Rightarrow> instant option \<Rightarrow> attendance" where
  "present s ci co =
     \<lparr>staffId = s, date = june1, checkIn = ci, checkOut = co, att_status = Present,
      isHoliday = False, att_notes = None\<rparr>"

section \<open>Properties of the appointment scheduler\<close>

subsection \<open>Object ids stay unique\<close>

lemma le_fold_max: "(a::nat) \<le> fold max ys a"
proof (induction ys arbitrary: a)
  case Nil
  show ?case by simp
next
  case (Cons y ys)
  have "a \<le> max y a" by simp
  also have "\<dots> \<le> fold max ys (max y a)" by (rule Cons.IH)
  finally show ?case by simp
qed

lemma mem_le_fold_max: "(x::nat) \<in> set ys \<Longrightarrow> x \<le> fold max ys a"
proof (induction ys arbitrary: a)
  case Nil
  then show ?case by simp
next
  case (Cons y ys)
  show ?case
  proof (cases "x = y")
    case True
    have "x \<le> max y a" using True by simp
    also have "\<dots> \<le> fold max ys (max y a)" by (rule le_fold_max)
    finally show ?thesis by simp
  next
    case False
    with Cons.prems have "x \<in> set ys" by simp
    then show ?thesis by (simp add: Cons.IH)
  qed
qed

lemma new_oid_fresh: "new_oid xs \<notin> appt_id ` set xs"
proof
  assume "new_oid xs \<in> appt_id ` set xs"
  then have "new_oid xs \<in> set (map appt_id xs)" by simp
  then have "new_oid xs \<le> fold max (map appt_id xs) 0" by (rule mem_le_fold_max)
  then show False by (simp add: new_oid_def)
qed

lemma map_replace_ids:
  "appt_id a' = j \<Longrightarrow> map appt_id (map (\<lambda>b. if appt_id b = j then a' else b) xs) = map appt_id xs"
  by (induction xs) auto

lemma create_ids_distinct:
  "distinct (map appt_id xs) \<Longrightarrow> distinct (map appt_id (snd (createAppointment svcs combos r xs)))"
  using new_oid_fresh[of xs]
  by (auto simp: createAppointment_def insert_appointment_def Let_def split: option.splits)

lemma reschedule_ids_distinct:
  "distinct (map appt_id xs) \<Longrightarrow> distinct (map appt_id (snd (rescheduleAppointment i r xs)))"
  by (auto simp: rescheduleAppointment_def save_appointment_def Let_def map_replace_ids
           simp del: map_map split: option.splits)

lemma cancel_ids_distinct:
  "distinct (map appt_id xs) \<Longrightarrow> distinct (map appt_id (snd (cancelAppointment i u xs)))"
  by (auto simp: cancelAppointment_def save_appointment_def Let_def map_replace_ids
           simp del: map_map split: option.splits)

lemma find_distinct_id:
  assumes "distinct (map appt_id xs)" "find P xs = Some a" "b \<in> set xs" "appt_id b = appt_id a"
  shows "b = a"
proof -
  from assms(2) have "a \<in> set xs"
    by (auto simp: find_Some_iff)
  with assms(1,3,4) show ?thesis
    by (meson distinct_map inj_onD)
qed

lemma save_status_only:
  "save_appointment xs a (a\<lparr>status := s\<rparr>)
     = Some (map (\<lambda>b. if appt_id b = appt_id a then a\<lparr>status := s\<rparr> else b) xs)"
  by (simp add: save_appointment_def same_slot_def)

subsection \<open>Cancel\<close>

text \<open>
  C5.  For every appointment id \<open>i\<close> and acting customer \<open>u\<close>: when no appointment
  matches both, Cancel fails with a NOT_FOUND failure and the store is as before; when the
  matched appointment is completed or cancelled, it fails with an INVALID_STATE failure and
  the store is as before; otherwise the answer is the appointment with status cancelled,
  and the store differs from the old one in the status of that appointment only.
\<close>

theorem cancel_state_machine:
  assumes "distinct (map appt_id xs)"
  shows "(find (\<lambda>a. appt_id a = i \<and> customer a = u) xs = None \<longrightarrow>
            (\<exists>e. cancelAppointment i u xs = (Inl e, xs) \<and> kind e = NOT_FOUND))
       \<and> (\<forall>a. find (\<lambda>a. appt_id a = i \<and> customer a = u) xs = Some a
              \<and> (status a = completed \<or> status a = cancelled) \<longrightarrow>
            (\<exists>e. cancelAppointment i u xs = (Inl e, xs) \<and> kind e = INVALID_STATE))
       \<and> (\<forall>a. find (\<lambda>a. appt_id a = i \<and> customer a = u) xs = Some a
              \<and> status a \<noteq> completed \<and> status a \<noteq> cancelled \<longrightarrow>
            cancelAppointment i u xs =
              (Inr (a\<lparr>status := cancelled\<rparr>),
               map (\<lambda>b. if appt_id b = i then b\<lparr>status := cancelled\<rparr> else b) xs))"
proof (intro conjI allI impI)
  assume "find (\<lambda>a. appt_id a = i \<and> customer a = u) xs = None"
  then show "\<exists>e. cancelAppointment i u xs = (Inl e, xs) \<and> kind e = NOT_FOUND"
    by (simp add: cancelAppointment_def)
next
  fix a
  assume "find (\<lambda>a. appt_id a = i \<and> customer a = u) xs = Some a
            \<and> (status a = completed \<or> status a = cancelled)"
  then show "\<exists>e. cancelAppointment i u xs = (Inl e, xs) \<and> kind e = INVALID_STATE"
    by (auto simp: cancelAppointment_def)
next
  fix a
  assume h: "find (\<lambda>a. appt_id a = i \<and> customer a = u) xs = Some a
            \<and> status a \<noteq> completed \<and> status a \<noteq> cancelled"
  then have ia: "appt_id a = i"
    by (auto simp: find_Some_iff)
  have "map (\<lambda>b. if appt_id b = appt_id a then a\<lparr>status := cancelled\<rparr> else b) xs
      = map (\<lambda>b. if appt_id b = i then b\<lparr>status := cancelled\<rparr> else b) xs"
  proof (rule map_cong[OF refl])
    fix b assume "b \<in> set xs"
    then show "(if appt_id b = appt_id a then a\<lparr>status := cancelled\<rparr> else b)
             = (if appt_id b = i then b\<lparr>status := cancelled\<rparr> else b)"
      using find_distinct_id[OF assms, of _ a b] h ia by auto
  qed
  with h show "cancelAppointment i u xs =
              (Inr (a\<lparr>status := cancelled\<rparr>),
               map (\<lambda>b. if appt_id b = i then b\<lparr>status := cancelled\<rparr> else b) xs)"
    by (simp add: cancelAppointment_def save_status_only Let_def)
qed

theorem cancel_state_machine_witness:
  "distinct (map appt_id [booking 1 10 ''9:00 AM'' pending, booking 2 11 ''10:00 AM'' completed])
   \<and> (\<exists>e. cancelAppointment 1 11 [booking 1 10 ''9:00 AM'' pending, booking 2 11 ''10:00 AM'' completed]
            = (Inl e, [booking 1 10 ''9:00 AM'' pending, booking 2 11 ''10:00 AM'' completed])
          \<and> kind e = NOT_FOUND)
   \<and> (\<exists>e. cancelAppointment 2 11 [booking 1 10 ''9:00 AM'' pending, booking 2 11 ''10:00 AM'' completed]
            = (Inl e, [booking 1 10 ''9:00 AM'' pending, booking 2 11 ''10:00 AM'' completed])
          \<and> kind e = INVALID_STATE)
   \<and> cancelAppointment 1 10 [booking 1 10 ''9:00 AM'' pending, booking 2 11 ''10:00 AM'' completed]
       = (Inr (booking 1 10 ''9:00 AM'' cancelled),
          [booking 1 10 ''9:00 AM'' cancelled, booking 2 11 ''10:00 AM'' completed])"
proof -
  let ?xs = "[booking 1 10 ''9:00 AM'' pending, booking 2 11 ''10:00 AM'' completed]"
  have d: "distinct (map appt_id ?xs)"
    by (simp add: booking_def)
  have f1: "find (\<lambda>a. appt_id a = 1 \<and> customer a = 11) ?xs = None"
    by (simp add: booking_def)
  have f2: "find (\<lambda>a. appt_id a = 2 \<and> customer a = 11) ?xs = Some (booking 2 11 ''10:00 AM'' completed)
            \<and> (status (booking 2 11 ''10:00 AM'' completed) = completed
               \<or> status (booking 2 11 ''10:00 AM'' completed) = cancelled)"
    by (simp add: booking_def)
  have f3: "find (\<lambda>a. appt_id a = 1 \<and> customer a = 10) ?xs = Some (booking 1 10 ''9:00 AM'' pending)
            \<and> status (booking 1 10 ''9:00 AM'' pending) \<noteq> completed
            \<and> status (booking 1 10 ''9:00 AM'' pending) \<noteq> cancelled"
    by (simp add: booking_def)
  from cancel_state_machine[OF d, of 1 11] f1
  have r1: "\<exists>e. cancelAppointment 1 11 ?xs = (Inl e, ?xs) \<and> kind e = NOT_FOUND"
    by blast
  from cancel_state_machine[OF d, of 2 11] f2
  have r2: "\<exists>e. cancelAppointment 2 11 ?xs = (Inl e, ?xs) \<and> kind e = INVALID_STATE"
    by blast
  from cancel_state_machine[OF d, of 1 10] f3
  have "cancelAppointment 1 10 ?xs =
          (Inr ((booking 1 10 ''9:00 AM'' pending)\<lparr>status := cancelled\<rparr>),
           map (\<lambda>b. if appt_id b = 1 then b\<lparr>status := cancelled\<rparr> else b) ?xs)"
    by blast
  then have r3: "cancelAppointment 1 10 ?xs =
          (Inr (booking 1 10 ''9:00 AM'' cancelled),
           [booking 1 10 ''9:00 AM'' cancelled, booking 2 11 ''10:00 AM'' completed])"
    by (simp add: booking_def)
  from d r1 r2 r3 show ?thesis by blast
qed

subsection \<open>At most one holder of a slot\<close>

lemma holders_append: "holders d s (xs @ ys) = holders d s xs @ holders d s ys"
  by (simp add: holders_def)

lemma holders_empty_iff:
  "holders d s xs = [] \<longleftrightarrow> \<not> list_ex (\<lambda>a. appointmentDate a = d \<and> timeSlot a = s \<and> active a) xs"
  by (auto simp: holders_def filter_empty_conv list_ex_iff)

lemma holders_map_le:
  assumes "\<And>b. b \<in> set xs \<Longrightarrow> f b \<noteq> b \<Longrightarrow> \<not> active (f b)"
  shows "length (holders d s (map f xs)) \<le> length (holders d s xs)"
  using assms
proof (induction xs)
  case Nil
  then show ?case by (simp add: holders_def)
next
  case (Cons x xs)
  then have ih: "length (holders d s (map f xs)) \<le> length (holders d s xs)"
    by simp
  show ?case
  proof (cases "f x = x")
    case True
    with ih show ?thesis by (simp add: holders_def)
  next
    case False
    with Cons.prems have "\<not> active (f x)" by simp
    with ih show ?thesis by (simp add: holders_def)
  qed
qed

lemma insert_new_holder:
  assumes inv: "slot_inv xs"
    and free: "\<not> list_ex (\<lambda>b. appointmentDate b = appointmentDate a \<and> timeSlot b = timeSlot a \<and> active b) xs"
  shows "slot_inv (xs @ [a])"
  unfolding slot_inv_def
proof (intro allI)
  fix d s
  show "length (holders d s (xs @ [a])) \<le> 1"
  proof (cases "d = appointmentDate a \<and> s = timeSlot a")
    case True
    with free have "holders d s xs = []"
      by (simp add: holders_empty_iff)
    then show ?thesis
      by (simp add: holders_append) (simp add: holders_def)
  next
    case False
    then have "holders d s [a] = []"
      by (auto simp: holders_def)
    with inv show ?thesis
      by (simp add: holders_append slot_inv_def)
  qed
qed

lemma create_slot_inv:
  assumes "slot_inv xs"
  shows "slot_inv (snd (createAppointment svcs combos r xs))"
  using assms
  by (auto simp: createAppointment_def insert_appointment_def Let_def
           intro!: insert_new_holder split: option.splits)

lemma reschedule_slot_inv:
  assumes "slot_inv xs"
  shows "slot_inv (snd (rescheduleAppointment i r xs))"
proof -
  have upd: "slot_inv (map (\<lambda>b. if appt_id b = j then a' else b) xs)"
    if "\<not> active a'" for a' j
    unfolding slot_inv_def
  proof (intro allI)
    fix d s
    have "length (holders d s (map (\<lambda>b. if appt_id b = j then a' else b) xs))
            \<le> length (holders d s xs)"
      by (rule holders_map_le) (use that in \<open>auto split: if_splits\<close>)
    with assms show "length (holders d s (map (\<lambda>b. if appt_id b = j then a' else b) xs)) \<le> 1"
      unfolding slot_inv_def by (meson order_trans)
  qed
  show ?thesis
    using assms
    by (auto simp: rescheduleAppointment_def save_appointment_def Let_def active_def
             intro!: upd split: option.splits)
qed

lemma step_slot_inv: "slot_inv xs \<Longrightarrow> slot_inv (step xs x)"
  by (cases x) (simp_all add: create_slot_inv reschedule_slot_inv)

lemma run_slot_inv: "slot_inv xs \<Longrightarrow> slot_inv (run ops xs)"
  unfolding run_def by (induction ops arbitrary: xs) (simp_all add: step_slot_inv)

text \<open>
  What does hold of any sequence of Create and Reschedule operations applied one after the
  other to the empty store: no two pending or confirmed appointments have the same slot
  and the same \<open>appointmentDate\<close>, compared as instants.
\<close>

lemma one_holder_per_instant:
  "length (filter (\<lambda>a. appointmentDate a = d \<and> timeSlot a = s
                        \<and> (status a = pending \<or> status a = confirmed)) (run ops [])) \<le> 1"
proof -
  have "slot_inv []"
    by (simp add: slot_inv_def holders_def)
  then have "slot_inv (run ops [])"
    by (rule run_slot_inv)
  then show ?thesis
    by (simp add: slot_inv_def holders_def active_def)
qed

text \<open>
  C2.  Two bookings of the slot 10:00 AM, one dated 2024-06-01T00:00Z and one dated
  2024-06-01T10:00Z, applied to the empty store.  Both dates pass the route's ISO 8601
  check.  The conflict query of the second booking looks for the instant 10:00Z, finds
  nothing, and the index sees two different keys, so both appointments are stored
  pending: the calendar day 2024-06-01 has two pending appointments at 10:00 AM, and the
  listing of that day's appointments shows both.
\<close>

theorem double_booking_same_day:
  "run [Create [haircut] [] (request_at june1 ''10:00 AM''),
        Create [haircut] [] (request_at (june1 + 36000000) ''10:00 AM'')] []
     = [booking_at 1 june1 ''10:00 AM'', booking_at 2 (june1 + 36000000) ''10:00 AM'']
   \<and> length (filter (\<lambda>a. calendar_day (appointmentDate a) = calendar_day june1
                         \<and> timeSlot a = ''10:00 AM''
                         \<and> (status a = pending \<or> status a = confirmed))
        (run [Create [haircut] [] (request_at june1 ''10:00 AM''),
              Create [haircut] [] (request_at (june1 + 36000000) ''10:00 AM'')] [])) = 2
   \<and> map (\<lambda>x. (appt_id (fst x), timeSlot (fst x), status (fst x)))
        (getTodaysAppointments [haircut] [] (june1 + 3600000) 0
          (run [Create [haircut] [] (request_at june1 ''10:00 AM''),
                Create [haircut] [] (request_at (june1 + 36000000) ''10:00 AM'')] []))
       = [(1, ''10:00 AM'', pending), (2, ''10:00 AM'', pending)]"
proof -
  have r: "run [Create [haircut] [] (request_at june1 ''10:00 AM''),
        Create [haircut] [] (request_at (june1 + 36000000) ''10:00 AM'')] []
     = [booking_at 1 june1 ''10:00 AM'', booking_at 2 (june1 + 36000000) ''10:00 AM'']"
    by (simp add: run_def createAppointment_def request_at_def booking_at_def haircut_def
          time_slots_def active_def insert_appointment_def same_slot_def new_oid_def
          june1_def Let_def)
  show ?thesis
    unfolding r
    by (simp add: booking_at_def calendar_day_def june1_def getTodaysAppointments_def
          setHours_def sort_timeSlot_def)
qed

subsection \<open>Reusing a freed slot\<close>

text \<open>
  C1.  The store holds one appointment, cancelled, at 10:00 AM on 2024-06-01.  A booking of
  that slot passes the conflict query, which looks at pending and confirmed appointments
  only; the insert then violates the unique index on date and slot, the handler's
  \<open>catch\<close> answers 500, and nothing is persisted.
\<close>

theorem create_on_freed_slot:
  "createAppointment [haircut] [] (request (Some [1]) None ''10:00 AM'')
       [booking 1 10 ''10:00 AM'' cancelled]
     = (Inl Server_error, [booking 1 10 ''10:00 AM'' cancelled])
   \<and> kind Server_error \<noteq> CONFLICT
   \<and> \<not> list_ex (\<lambda>a. appointmentDate a = june1 \<and> timeSlot a = ''10:00 AM'' \<and> status a = pending)
         (snd (createAppointment [haircut] [] (request (Some [1]) None ''10:00 AM'')
                 [booking 1 10 ''10:00 AM'' cancelled]))"
  by (simp add: createAppointment_def request_def booking_def haircut_def time_slots_def
        active_def insert_appointment_def same_slot_def new_oid_def)

text \<open>
  C6.  The store holds a cancelled appointment at 10:00 AM and a pending one at 11:00 AM.
  Rescheduling the pending one to 10:00 AM meets no pending or confirmed holder, so none of
  the three failures of the claim applies; the update then violates the unique index on
  date and slot, the handler answers 500, and date, slot and status stay as they were.
\<close>

theorem reschedule_onto_freed_slot:
  "rescheduleAppointment 2 \<lparr>new_appointmentDate = Some june1, new_timeSlot = ''10:00 AM''\<rparr>
       [booking 1 10 ''10:00 AM'' cancelled, booking 2 11 ''11:00 AM'' pending]
     = (Inl Server_error,
        [booking 1 10 ''10:00 AM'' cancelled, booking 2 11 ''11:00 AM'' pending])
   \<and> kind Server_error \<noteq> NOT_FOUND \<and> kind Server_error \<noteq> INVALID_STATE
   \<and> kind Server_error \<noteq> CONFLICT"
  by (simp add: rescheduleAppointment_def booking_def time_slots_def
        active_def save_appointment_def same_slot_def)

text \<open>
  What does hold of Reschedule: the three refusals, in this order, and the overwrite when no
  other appointment of any status has the target date and slot.
\<close>

lemma reschedule_branches:
  assumes "new_appointmentDate q = Some d" and "new_timeSlot q \<in> set time_slots"
  shows "find (\<lambda>a. appt_id a = i) xs = None \<Longrightarrow>
           rescheduleAppointment i q xs = (Inl Appointment_not_found, xs)"
    and "find (\<lambda>a. appt_id a = i) xs = Some a \<Longrightarrow> status a = completed \<or> status a = cancelled \<Longrightarrow>
           rescheduleAppointment i q xs = (Inl Cannot_reschedule, xs)"
    and "find (\<lambda>a. appt_id a = i) xs = Some a \<Longrightarrow> status a \<noteq> completed \<Longrightarrow> status a \<noteq> cancelled \<Longrightarrow>
           list_ex (\<lambda>b. appointmentDate b = d \<and> timeSlot b = new_timeSlot q
                          \<and> active b \<and> appt_id b \<noteq> i) xs \<Longrightarrow>
           rescheduleAppointment i q xs = (Inl Slot_already_booked, xs)"
    and "find (\<lambda>a. appt_id a = i) xs = Some a \<Longrightarrow> status a \<noteq> completed \<Longrightarrow> status a \<noteq> cancelled \<Longrightarrow>
           \<not> list_ex (\<lambda>b. appointmentDate b = d \<and> timeSlot b = new_timeSlot q
                          \<and> appt_id b \<noteq> i) xs \<Longrightarrow>
           rescheduleAppointment i q xs =
             (Inr (a\<lparr>appointmentDate := d, timeSlot := new_timeSlot q, status := rescheduled\<rparr>),
              map (\<lambda>b. if appt_id b = i
                        then a\<lparr>appointmentDate := d, timeSlot := new_timeSlot q,
                               status := rescheduled\<rparr>
                        else b) xs)"
proof -
  show "find (\<lambda>a. appt_id a = i) xs = None \<Longrightarrow>
           rescheduleAppointment i q xs = (Inl Appointment_not_found, xs)"
    using assms by (simp add: rescheduleAppointment_def)
  show "find (\<lambda>a. appt_id a = i) xs = Some a \<Longrightarrow> status a = completed \<or> status a = cancelled \<Longrightarrow>
           rescheduleAppointment i q xs = (Inl Cannot_reschedule, xs)"
    using assms by (auto simp: rescheduleAppointment_def)
  show "find (\<lambda>a. appt_id a = i) xs = Some a \<Longrightarrow> status a \<noteq> completed \<Longrightarrow> status a \<noteq> cancelled \<Longrightarrow>
           list_ex (\<lambda>b. appointmentDate b = d \<and> timeSlot b = new_timeSlot q
                          \<and> active b \<and> appt_id b \<noteq> i) xs \<Longrightarrow>
           rescheduleAppointment i q xs = (Inl Slot_already_booked, xs)"
    using assms by (simp add: rescheduleAppointment_def)
  assume f: "find (\<lambda>a. appt_id a = i) xs = Some a"
    and s: "status a \<noteq> completed" "status a \<noteq> cancelled"
    and n: "\<not> list_ex (\<lambda>b. appointmentDate b = d \<and> timeSlot b = new_timeSlot q
                          \<and> appt_id b \<noteq> i) xs"
  from f have ia: "appt_id a = i"
    by (auto simp: find_Some_iff)
  from n have n1: "\<not> list_ex (\<lambda>b. appointmentDate b = d \<and> timeSlot b = new_timeSlot q
                          \<and> active b \<and> appt_id b \<noteq> i) xs"
    by (auto simp: list_ex_iff)
  from n ia have n2: "\<not> list_ex (\<lambda>b. appt_id b \<noteq> appt_id a \<and> appointmentDate b = d
                          \<and> timeSlot b = new_timeSlot q) xs"
    by (auto simp: list_ex_iff)
  from f s n1 n2 ia assms
  show "rescheduleAppointment i q xs =
             (Inr (a\<lparr>appointmentDate := d, timeSlot := new_timeSlot q, status := rescheduled\<rparr>),
              map (\<lambda>b. if appt_id b = i
                        then a\<lparr>appointmentDate := d, timeSlot := new_timeSlot q,
                               status := rescheduled\<rparr>
                        else b) xs)"
    by (simp add: rescheduleAppointment_def save_appointment_def same_slot_def Let_def)
qed

subsection \<open>Order of today's appointments\<close>

text \<open>
  C4.  Two appointments of the current day, at 9:00 AM and at 10:00 AM, are listed with
  10:00 AM first: the sort compares the slot strings, and \<open>1\<close> precedes \<open>9\<close>.  The
  list is not ascending in the business-hours enumeration.
\<close>

theorem today_sorted_lexically:
  "map (timeSlot \<circ> fst)
       (getTodaysAppointments [haircut] [] (june1 + 3600000) 0
          [booking 1 10 ''9:00 AM'' pending, booking 2 11 ''10:00 AM'' confirmed])
     = [''10:00 AM'', ''9:00 AM'']
   \<and> \<not> sorted (map (slot_rank \<circ> timeSlot \<circ> fst)
         (getTodaysAppointments [haircut] [] (june1 + 3600000) 0
            [booking 1 10 ''9:00 AM'' pending, booking 2 11 ''10:00 AM'' confirmed]))"
  by (simp add: getTodaysAppointments_def booking_def setHours_def june1_def sort_timeSlot_def
        slot_rank_def time_slots_def)

subsection \<open>Booking with both a service list and a combo\<close>

text \<open>
  C10.  A Create request that carries a non-empty service list and a combo id is not
  rejected for carrying both: it is answered exactly as the same request without the
  service list.  The handler's own rejection 'Please select services or a combo' is given
  precisely to well-formed requests with neither.  The combo is looked up: when no active
  combo has that id the request fails; when one has, and the slot holds no appointment,
  the appointment is stored with the combo, status pending and an empty service list.
\<close>

theorem create_with_services_and_combo:
  assumes "req_services r = Some ss" and "ss \<noteq> []" and "req_combo r = Some c"
  shows "createAppointment svcs combos r xs
           = createAppointment svcs combos (r\<lparr>req_services := None\<rparr>) xs
       \<and> fst (createAppointment svcs combos r xs) \<noteq> Inl Select_services_or_combo
       \<and> (fst (createAppointment svcs combos q xs) = Inl Select_services_or_combo
            \<longleftrightarrow> req_appointmentDate q \<noteq> None \<and> req_timeSlot q \<in> set time_slots
                \<and> (req_services q = None \<or> req_services q = Some []) \<and> req_combo q = None)
       \<and> (req_appointmentDate r = Some d \<and> req_timeSlot r \<in> set time_slots
            \<and> \<not> list_ex (\<lambda>a. appointmentDate a = d \<and> timeSlot a = req_timeSlot r \<and> active a) xs
            \<and> \<not> list_ex (\<lambda>k. combo_id k = c \<and> combo_isActive k) combos
          \<longrightarrow> createAppointment svcs combos r xs = (Inl Combo_not_available, xs))
       \<and> (req_appointmentDate r = Some d \<and> req_timeSlot r \<in> set time_slots
            \<and> \<not> list_ex (\<lambda>a. appointmentDate a = d \<and> timeSlot a = req_timeSlot r) xs
            \<and> list_ex (\<lambda>k. combo_id k = c \<and> combo_isActive k) combos
          \<longrightarrow> createAppointment svcs combos r xs =
               (Inr \<lparr>appt_id = new_oid xs, customer = user r, services = [], combo = Some c,
                     appointmentDate = d, timeSlot = req_timeSlot r, status = pending,
                     appt_notes = req_notes r\<rparr>,
                xs @ [\<lparr>appt_id = new_oid xs, customer = user r, services = [], combo = Some c,
                       appointmentDate = d, timeSlot = req_timeSlot r, status = pending,
                       appt_notes = req_notes r\<rparr>]))"
proof (intro conjI impI)
  show "createAppointment svcs combos r xs
          = createAppointment svcs combos (r\<lparr>req_services := None\<rparr>) xs"
    using assms by (simp add: createAppointment_def split: option.splits)
  show "fst (createAppointment svcs combos r xs) \<noteq> Inl Select_services_or_combo"
    using assms
    by (simp add: createAppointment_def Let_def split: option.splits)
  show "fst (createAppointment svcs combos q xs) = Inl Select_services_or_combo
            \<longleftrightarrow> req_appointmentDate q \<noteq> None \<and> req_timeSlot q \<in> set time_slots
                \<and> (req_services q = None \<or> req_services q = Some []) \<and> req_combo q = None"
    by (auto simp: createAppointment_def Let_def split: option.splits)
next
  assume "req_appointmentDate r = Some d \<and> req_timeSlot r \<in> set time_slots
            \<and> \<not> list_ex (\<lambda>a. appointmentDate a = d \<and> timeSlot a = req_timeSlot r \<and> active a) xs
            \<and> \<not> list_ex (\<lambda>k. combo_id k = c \<and> combo_isActive k) combos"
  then show "createAppointment svcs combos r xs = (Inl Combo_not_available, xs)"
    using assms by (simp add: createAppointment_def)
next
  assume h: "req_appointmentDate r = Some d \<and> req_timeSlot r \<in> set time_slots
            \<and> \<not> list_ex (\<lambda>a. appointmentDate a = d \<and> timeSlot a = req_timeSlot r) xs
            \<and> list_ex (\<lambda>k. combo_id k = c \<and> combo_isActive k) combos"
  then have "\<not> list_ex (\<lambda>a. appointmentDate a = d \<and> timeSlot a = req_timeSlot r \<and> active a) xs"
    by (auto simp: list_ex_iff)
  with h show "createAppointment svcs combos r xs =
               (Inr \<lparr>appt_id = new_oid xs, customer = user r, services = [], combo = Some c,
                     appointmentDate = d, timeSlot = req_timeSlot r, status = pending,
                     appt_notes = req_notes r\<rparr>,
                xs @ [\<lparr>appt_id = new_oid xs, customer = user r, services = [], combo = Some c,
                       appointmentDate = d, timeSlot = req_timeSlot r, status = pending,
                       appt_notes = req_notes r\<rparr>])"
    using assms
    by (simp add: createAppointment_def insert_appointment_def same_slot_def Let_def)
qed

theorem create_with_services_and_combo_witness:
  "createAppointment [haircut] [groom] (request (Some [1, 2]) (Some 7) ''10:00 AM'')
       [booking 1 10 ''9:00 AM'' pending]
     = (Inr \<lparr>appt_id = 2, customer = 42, services = [], combo = Some 7,
             appointmentDate = june1, timeSlot = ''10:00 AM'', status = pending,
             appt_notes = None\<rparr>,
        [booking 1 10 ''9:00 AM'' pending,
         \<lparr>appt_id = 2, customer = 42, services = [], combo = Some 7,
             appointmentDate = june1, timeSlot = ''10:00 AM'', status = pending,
             appt_notes = None\<rparr>])
   \<and> createAppointment [haircut] [groom] (request (Some [1, 2]) (Some 7) ''10:00 AM'')
       [booking 1 10 ''9:00 AM'' pending]
     = createAppointment [haircut] [groom] (request None (Some 7) ''10:00 AM'')
       [booking 1 10 ''9:00 AM'' pending]
   \<and> fst (createAppointment [haircut] [groom] (request (Some []) None ''10:00 AM'')
       [booking 1 10 ''9:00 AM'' pending]) = Inl Select_services_or_combo"
proof -
  let ?r = "request (Some [1, 2]) (Some 7) ''10:00 AM''"
  let ?q = "request (Some []) None ''10:00 AM''"
  let ?xs = "[booking 1 10 ''9:00 AM'' pending]"
  have a: "req_services ?r = Some [1, 2]" "[1, 2::nat] \<noteq> []" "req_combo ?r = Some 7"
    by (simp_all add: request_def)
  have b: "req_appointmentDate ?r = Some june1 \<and> req_timeSlot ?r \<in> set time_slots
            \<and> \<not> list_ex (\<lambda>a. appointmentDate a = june1 \<and> timeSlot a = req_timeSlot ?r) ?xs
            \<and> list_ex (\<lambda>k. combo_id k = 7 \<and> combo_isActive k) [groom]"
    by (simp add: request_def time_slots_def booking_def groom_def)
  have c: "req_appointmentDate ?q \<noteq> None \<and> req_timeSlot ?q \<in> set time_slots
                \<and> (req_services ?q = None \<or> req_services ?q = Some []) \<and> req_combo ?q = None"
    by (simp add: request_def time_slots_def)
  have n: "new_oid ?xs = 2"
    by (simp add: new_oid_def booking_def)
  have u: "?r\<lparr>req_services := None\<rparr> = request None (Some 7) ''10:00 AM''"
    by (simp add: request_def)
  note t = create_with_services_and_combo[OF a, of "[haircut]" "[groom]" ?xs ?q june1]
  from t have "createAppointment [haircut] [groom] ?r ?xs
                 = createAppointment [haircut] [groom] (?r\<lparr>req_services := None\<rparr>) ?xs"
    by blast
  then have r1: "createAppointment [haircut] [groom] ?r ?xs
                 = createAppointment [haircut] [groom] (request None (Some 7) ''10:00 AM'') ?xs"
    unfolding u .
  from t c have r2: "fst (createAppointment [haircut] [groom] ?q ?xs) = Inl Select_services_or_combo"
    by blast
  from t b have "createAppointment [haircut] [groom] ?r ?xs =
               (Inr \<lparr>appt_id = new_oid ?xs, customer = user ?r, services = [], combo = Some 7,
                     appointmentDate = june1, timeSlot = req_timeSlot ?r, status = pending,
                     appt_notes = req_notes ?r\<rparr>,
                ?xs @ [\<lparr>appt_id = new_oid ?xs, customer = user ?r, services = [], combo = Some 7,
                       appointmentDate = june1, timeSlot = req_timeSlot ?r, status = pending,
                       appt_notes = req_notes ?r\<rparr>])"
    by blast
  then have r3: "createAppointment [haircut] [groom] ?r ?xs =
       (Inr \<lparr>appt_id = 2, customer = 42, services = [], combo = Some 7,
             appointmentDate = june1, timeSlot = ''10:00 AM'', status = pending,
             appt_notes = None\<rparr>,
        [booking 1 10 ''9:00 AM'' pending,
         \<lparr>appt_id = 2, customer = 42, services = [], combo = Some 7,
             appointmentDate = june1, timeSlot = ''10:00 AM'', status = pending,
             appt_notes = None\<rparr>])"
    unfolding n by (simp add: request_def)
  from r1 r2 r3 show ?thesis by blast
qed

section \<open>Properties of combo pricing\<close>

lemma calculatePrice_populate:
  "calculatePrice (populate_members svcs (members k)) (discount k) = member_price svcs k"
  by (simp add: calculatePrice_def populate_members_def member_price_def comp_def)

lemma validated_members_active:
  "validateAndGetServices svcs i ms = Some ds \<Longrightarrow>
     list_all (\<lambda>m. case find (\<lambda>s. svc_id s = service m) svcs of
                       None \<Rightarrow> False | Some v \<Rightarrow> svc_isActive v) (map fst ds)"
proof (induction ms arbitrary: i ds)
  case Nil
  then show ?case by simp
next
  case (Cons m ms)
  from Cons.prems obtain v ds' where
    v: "find (\<lambda>s. svc_id s = service m) svcs = Some v" "svc_isActive v"
    and r: "validateAndGetServices svcs (Suc i) ms = Some ds'"
    and d: "map fst ds = m\<lparr>sequence := (if sequence m = None \<or> sequence m = Some 0
                                          then Some (of_nat i + 1) else sequence m)\<rparr>
                          # map fst ds'"
    by (auto split: option.splits if_splits)
  from r have "list_all (\<lambda>m. case find (\<lambda>s. svc_id s = service m) svcs of
                       None \<Rightarrow> False | Some v \<Rightarrow> svc_isActive v) (map fst ds')"
    by (rule Cons.IH)
  with v show ?case
    unfolding d by simp
qed

lemma all_active_price:
  assumes "list_all (\<lambda>m. case find (\<lambda>s. svc_id s = service m) svcs of
                             None \<Rightarrow> False | Some v \<Rightarrow> svc_isActive v) (members k)"
  shows "active_member_price svcs k = member_price svcs k"
proof -
  have eq: "map (\<lambda>m. case find (\<lambda>s. svc_id s = service m) svcs of
                    None \<Rightarrow> 0 | Some v \<Rightarrow> if svc_isActive v then price v else 0) (members k)
      = map (\<lambda>m. case find (\<lambda>s. svc_id s = service m) svcs of
                    None \<Rightarrow> 0 | Some v \<Rightarrow> price v) (members k)"
    using assms by (intro map_cong refl) (auto simp: list_all_iff split: option.splits)
  show ?thesis
    by (simp only: active_member_price_def member_price_def eq)
qed

text \<open>
  C3, as the specification states the price.  The combo has an active member priced 100
  and an inactive member priced 200.  An update of the discount to 10 stores the price 270,
  the discounted sum over both members, where the sum over the active members gives 90.
\<close>

theorem update_prices_inactive_member:
  "map_sum id totalPrice (fst (updateCombo [haircut, shave] (only_discount 10) 7 [groom]))
     = Inr 270
   \<and> map_sum id (active_member_price [haircut, shave])
        (fst (updateCombo [haircut, shave] (only_discount 10) 7 [groom])) = Inr 90"
  by (simp add: updateCombo_def update_combo_checks_def only_discount_def groom_def
        haircut_def shave_def calculatePrice_def populate_members_def
        update_fields_def update_services_def active_member_price_def Let_def)

text \<open>
  C3, amended.  An update whose discount exceeds 100 fails with a VALIDATION failure and
  the stored combos are those of before the call.  An update that succeeds stores as
  totalPrice the sum of the prices of all member services found in the catalog, active or
  not, reduced by the discount percentage and floored at zero.  When the update supplies
  the service list, every member is active and the sum is the one over the active members.
\<close>

theorem update_combo_discount:
  "(upd_discount r = Some d \<and> 100 < d \<longrightarrow>
      (\<exists>e. updateCombo svcs r i combos = (Inl e, combos) \<and> kind e = VALIDATION))
   \<and> (fst (updateCombo svcs r i combos) = Inr k \<longrightarrow>
        totalPrice k = member_price svcs k
        \<and> 0 \<le> totalPrice k
        \<and> find (\<lambda>b. combo_id b = i) (snd (updateCombo svcs r i combos)) = Some k
        \<and> (upd_services r \<noteq> None \<longrightarrow> totalPrice k = active_member_price svcs k))"
proof (intro conjI impI)
  assume "upd_discount r = Some d \<and> 100 < d"
  then have "\<not> update_combo_checks r"
    by (simp add: update_combo_checks_def)
  then show "\<exists>e. updateCombo svcs r i combos = (Inl e, combos) \<and> kind e = VALIDATION"
    by (simp add: updateCombo_def)
next
  assume ok: "fst (updateCombo svcs r i combos) = Inr k"
  then obtain k0 k' where
    f: "find (\<lambda>b. combo_id b = i) combos = Some k0"
    and k: "k = k'\<lparr>totalPrice := calculatePrice (populate_members svcs (members k')) (discount k')\<rparr>"
    and s: "snd (updateCombo svcs r i combos) = map (\<lambda>b. if combo_id b = i then k else b) combos"
    and u: "update_services svcs r (update_fields r k0) = Some k'"
    by (auto simp: updateCombo_def Let_def split: if_splits option.splits)
  from f have "combo_id k0 = i"
    by (auto simp: find_Some_iff)
  with u k have ki: "combo_id k = i"
    by (auto simp: update_services_def update_fields_def split: option.splits)
  have "calculatePrice (populate_members svcs (members k')) (discount k') = member_price svcs k'"
    by (rule calculatePrice_populate)
  with k show tp: "totalPrice k = member_price svcs k"
    by (simp add: member_price_def)
  then show "0 \<le> totalPrice k"
    by (simp add: member_price_def Let_def)
  have "find (\<lambda>b. combo_id b = i) (map (\<lambda>b. if combo_id b = i then k else b) cs) = Some k"
    if "find (\<lambda>b. combo_id b = i) cs = Some k0" for cs
    using that ki by (induction cs) (auto split: if_splits)
  with f s show "find (\<lambda>b. combo_id b = i) (snd (updateCombo svcs r i combos)) = Some k"
    by simp
  assume "upd_services r \<noteq> None"
  then obtain ms ds where "validateAndGetServices svcs 0 ms = Some ds" and "members k' = map fst ds"
    using u by (auto simp: update_services_def split: option.splits)
  then have "list_all (\<lambda>m. case find (\<lambda>s. svc_id s = service m) svcs of
                              None \<Rightarrow> False | Some v \<Rightarrow> svc_isActive v) (members k)"
    using validated_members_active[of svcs 0 ms ds] k by simp
  then have "active_member_price svcs k = member_price svcs k"
    by (rule all_active_price)
  with tp show "totalPrice k = active_member_price svcs k"
    by simp
qed

theorem update_combo_discount_witness:
  "updateCombo [haircut, shave] (only_discount 150) 7 [groom] = (Inl Validation_errors, [groom])
   \<and> kind Validation_errors = VALIDATION
   \<and> fst (updateCombo [haircut, shave] (only_discount 10) 7 [groom])
       = Inr (groom\<lparr>discount := 10, totalPrice := 270\<rparr>)
   \<and> totalPrice (groom\<lparr>discount := 10, totalPrice := 270\<rparr>)
       = member_price [haircut, shave] (groom\<lparr>discount := 10, totalPrice := 270\<rparr>)
   \<and> find (\<lambda>b. combo_id b = 7) (snd (updateCombo [haircut, shave] (only_discount 10) 7 [groom]))
       = Some (groom\<lparr>discount := 10, totalPrice := 270\<rparr>)
   \<and> fst (updateCombo [haircut, shave]
            (with_services [\<lparr>service = 1, sequence = None\<rparr>] 10) 7 [groom])
       = Inr (groom\<lparr>members := [\<lparr>service = 1, sequence = Some 1\<rparr>], totalDuration := 30,
                    discount := 10, totalPrice := 90\<rparr>)
   \<and> active_member_price [haircut, shave]
         (groom\<lparr>members := [\<lparr>service = 1, sequence = Some 1\<rparr>], totalDuration := 30,
                discount := 10, totalPrice := 90\<rparr>) = 90"
proof -
  let ?j = "groom\<lparr>members := [\<lparr>service = 1, sequence = Some 1\<rparr>], totalDuration := 30,
                   discount := 10, totalPrice := 90\<rparr>"
  let ?w = "with_services [\<lparr>service = 1, sequence = None\<rparr>] 10"
  have c: "fst (updateCombo [haircut, shave] ?w 7 [groom]) = Inr ?j"
    by (simp add: updateCombo_def update_combo_checks_def with_services_def groom_def
          haircut_def shave_def calculatePrice_def populate_members_def
          update_fields_def update_services_def Let_def)
  have "upd_services ?w \<noteq> None"
    by (simp add: with_services_def)
  with update_combo_discount[where r = ?w and svcs = "[haircut, shave]"
      and i = 7 and combos = "[groom]" and k = ?j] c
  have "totalPrice ?j = active_member_price [haircut, shave] ?j"
    by blast
  then have r3: "active_member_price [haircut, shave] ?j = 90"
    by simp
  let ?k = "groom\<lparr>discount := 10, totalPrice := 270\<rparr>"
  have a: "upd_discount (only_discount 150) = Some 150 \<and> (100::rat) < 150"
    by (simp add: only_discount_def)
  have b: "fst (updateCombo [haircut, shave] (only_discount 10) 7 [groom]) = Inr ?k"
    by (simp add: updateCombo_def update_combo_checks_def only_discount_def groom_def
          haircut_def shave_def calculatePrice_def populate_members_def
          update_fields_def update_services_def Let_def)
  from update_combo_discount[where r = "only_discount 150" and d = 150
      and svcs = "[haircut, shave]" and i = 7 and combos = "[groom]"] a
  obtain e where e: "updateCombo [haircut, shave] (only_discount 150) 7 [groom] = (Inl e, [groom])"
    "kind e = VALIDATION"
    by blast
  have "fst (updateCombo [haircut, shave] (only_discount 150) 7 [groom]) = Inl Validation_errors"
    by (simp add: updateCombo_def update_combo_checks_def only_discount_def)
  with e have r1: "updateCombo [haircut, shave] (only_discount 150) 7 [groom]
                     = (Inl Validation_errors, [groom])"
    by simp
  from update_combo_discount[where r = "only_discount 10" and svcs = "[haircut, shave]"
      and i = 7 and combos = "[groom]" and k = ?k] b
  have r2: "totalPrice ?k = member_price [haircut, shave] ?k
            \<and> find (\<lambda>b. combo_id b = 7)
                 (snd (updateCombo [haircut, shave] (only_discount 10) 7 [groom])) = Some ?k"
    by blast
  from r1 b r2 c r3 show ?thesis by simp
qed

section \<open>Properties of the attendance ledger\<close>

subsection \<open>One record per staff member and day\<close>

lemma replace_first_keys:
  "att_key a = (s, d) \<Longrightarrow>
     map att_key (replace_first (\<lambda>a. staffId a = s \<and> date a = d) a xs) = map att_key xs"
  by (induction xs) (auto simp: att_key_def)

lemma find_none_key:
  "find (\<lambda>a. staffId a = s \<and> date a = d) xs = None \<Longrightarrow> (s, d) \<notin> set (map att_key xs)"
  by (auto simp: find_None_iff att_key_def)

lemma find_some_key:
  "find (\<lambda>a. staffId a = s \<and> date a = d) xs = Some e \<Longrightarrow> att_key e = (s, d)"
  by (auto simp: find_Some_iff att_key_def)

lemma write_action_keys:
  assumes "distinct (map att_key xs)"
    and "find (\<lambda>a. staffId a = s \<and> date a = d) xs = ex"
  shows "distinct (map att_key (snd (write_action now s d t action ex xs)))"
proof (cases ex)
  case None
  with assms(2) have "(s, d) \<notin> set (map att_key xs)"
    by (intro find_none_key) simp
  with assms(1) None show ?thesis
    by (auto simp: write_action_def Let_def att_key_def)
next
  case (Some e)
  with assms(2) have "att_key e = (s, d)"
    by (intro find_some_key) simp
  then have "att_key (e\<lparr>checkIn := Some t\<rparr>) = (s, d)" "att_key (e\<lparr>checkOut := Some t\<rparr>) = (s, d)"
    by (simp_all add: att_key_def)
  with assms(1) Some show ?thesis
    by (simp add: write_action_def Let_def replace_first_keys)
qed

lemma apply_action_keys:
  "distinct (map att_key xs) \<Longrightarrow> distinct (map att_key (snd (apply_action now s d t action xs)))"
  by (auto simp: apply_action_def write_action_keys split: option.splits)

lemma recordAttendance_keys:
  "distinct (map att_key xs) \<Longrightarrow> distinct (map att_key (snd (recordAttendance now tz staffs r xs)))"
  by (auto simp: recordAttendance_def apply_action_keys
           split: field.splits option.splits sum.splits)

subsection \<open>The checks on a record that exists\<close>

lemma apply_action_existing:
  assumes "find (\<lambda>a. staffId a = s \<and> date a = d) xs = Some e"
  shows "checkIn e \<noteq> None \<Longrightarrow> apply_action now s d t ''checkIn'' xs = (Inl Already_checked_in, xs)"
    and "checkIn e = None \<Longrightarrow> apply_action now s d t ''checkOut'' xs = (Inl Checkout_without_checkin, xs)"
    and "checkIn e \<noteq> None \<Longrightarrow> checkOut e \<noteq> None \<Longrightarrow>
           apply_action now s d t ''checkOut'' xs = (Inl Already_checked_out, xs)"
  using assms by (simp_all add: apply_action_def)

subsection \<open>A check-out with no record\<close>

text \<open>
  C7.  Staff member 1 is active and has no record for 2024-06-01.  A check-out at 18:00 of
  that day is not refused: the duplicate checks are made only on a record that exists, so
  a new record is stored with the check-out and no check-in.
\<close>

theorem checkout_without_record:
  "recordAttendance (june1 + 72000000) 0 crew (punch 1 ''checkOut'' 18) []
     = (Inr (present 1 None (Some (june1 + 64800000))),
        [present 1 None (Some (june1 + 64800000))])"
  by (simp add: recordAttendance_def punch_def crew_def record_date_def record_time_def
        apply_action_def write_action_def attendance_valid_def present_def setHours_def
        june1_def Let_def)

subsection \<open>Check-out before check-in, and working hours\<close>

lemma toFixed2_form:
  "\<exists>m::int. toFixed2 up x = sgn x * of_int m / 100 \<and> \<bar>of_int m - 100 * \<bar>x\<bar>\<bar> \<le> 1 / 2"
proof -
  define a where "a = \<bar>x\<bar>"
  define n where "n = \<lfloor>100 * a\<rfloor>"
  define f where "f = 100 * a - of_int n"
  define m where
    "m = (if f < 1 / 2 then n else if 1 / 2 < f then n + 1 else if up a then n + 1 else n)"
  have f0: "0 \<le> f" and f1: "f < 1"
    unfolding f_def n_def by linarith+
  have near: "\<bar>of_int m - 100 * a\<bar> \<le> 1 / 2"
  proof (cases "f < 1 / 2")
    case True
    then have "of_int m - 100 * a = - f" by (simp add: m_def f_def)
    with True f0 show ?thesis by simp
  next
    case False
    show ?thesis
    proof (cases "1 / 2 < f")
      case True
      with False have "of_int m - 100 * a = 1 - f" by (simp add: m_def f_def)
      with True f1 show ?thesis by simp
    next
      case F2: False
      with False have h: "f = 1 / 2" by simp
      then have "of_int m - 100 * a = 1 / 2 \<or> of_int m - 100 * a = - (1 / 2)"
        using f_def by (auto simp: m_def)
      then show ?thesis by auto
    qed
  qed
  have "toFixed2 up x = sgn x * of_int m / 100"
    by (simp add: toFixed2_def Let_def a_def n_def f_def m_def)
  with near show ?thesis
    unfolding a_def by blast
qed

lemma toFixed2_near: "\<bar>toFixed2 up x - x\<bar> \<le> 1 / 200"
proof -
  obtain m :: int where t: "toFixed2 up x = sgn x * of_int m / 100"
    and near: "\<bar>of_int m - 100 * \<bar>x\<bar>\<bar> \<le> 1 / 2"
    using toFixed2_form by blast
  have x: "sgn x * \<bar>x\<bar> = x"
    by (rule sgn_mult_abs)
  have "sgn x * ((of_int m - 100 * \<bar>x\<bar>) / 100) = sgn x * of_int m / 100 - sgn x * \<bar>x\<bar>"
    by (simp add: field_simps)
  with t x have eq: "toFixed2 up x - x = sgn x * ((of_int m - 100 * \<bar>x\<bar>) / 100)"
    by simp
  have "\<bar>toFixed2 up x - x\<bar> = \<bar>sgn x\<bar> * \<bar>(of_int m - 100 * \<bar>x\<bar>) / 100\<bar>"
    unfolding eq by (rule abs_mult)
  also have "\<dots> \<le> 1 * \<bar>(of_int m - 100 * \<bar>x\<bar>) / 100\<bar>"
    by (rule mult_right_mono) (auto simp: sgn_if)
  also have "\<dots> \<le> 1 / 200"
    using near by simp
  finally show ?thesis .
qed

lemma toFixed2_hundredths: "\<exists>k::int. toFixed2 up x = of_int k / 100"
proof -
  obtain m :: int where m: "toFixed2 up x = sgn x * of_int m / 100"
    using toFixed2_form by blast
  have "sgn x = 0 \<or> sgn x = 1 \<or> sgn x = - 1"
    by (auto simp: sgn_if)
  then consider "sgn x = 0" | "sgn x = 1" | "sgn x = - 1" by blast
  then show ?thesis
  proof cases
    case 1
    with m have "toFixed2 up x = of_int 0 / 100" by simp
    then show ?thesis by blast
  next
    case 2
    with m have "toFixed2 up x = of_int m / 100" by simp
    then show ?thesis by blast
  next
    case 3
    with m have "toFixed2 up x = of_int (- m) / 100" by simp
    then show ?thesis by blast
  qed
qed

text \<open>
  C8.  A document with both instants whose check-out is before its check-in fails the
  schema's validation.  So a check-out action on a record that has a check-in, at an
  instant before that check-in, is answered with the validation failure and the store
  stays as it was.  The working hours of a record with both instants are a multiple of
  0.01 at most 0.005 away from the exact number of hours between them, and are 0 when
  either instant is missing.
\<close>

theorem checkout_not_before_checkin:
  "(checkIn a = Some ci \<and> checkOut a = Some co \<and> co < ci \<longrightarrow> \<not> attendance_valid now a)
   \<and> (req_staffId r = Given s \<and> req_action r = Some ''checkOut''
        \<and> find (\<lambda>m. staff_id m = s) staffs = Some m \<and> staff_isActive m
        \<and> record_date now r = Inr d \<and> record_time now tz d r = Inr t
        \<and> find (\<lambda>a. staffId a = s \<and> date a = d) xs = Some e
        \<and> checkIn e = Some ci \<and> checkOut e = None \<and> t < ci
      \<longrightarrow> recordAttendance now tz staffs r xs = (Inl Validation_failed, xs)
          \<and> kind Validation_failed = VALIDATION)
   \<and> (checkIn a = Some ci \<and> checkOut a = Some co \<longrightarrow>
        \<bar>workingHours up a - of_int (co - ci) / 3600000\<bar> \<le> 1 / 200
        \<and> (\<exists>k::int. workingHours up a = of_int k / 100))
   \<and> (checkIn a = None \<or> checkOut a = None \<longrightarrow> workingHours up a = 0)"
proof (intro conjI impI)
  assume "checkIn a = Some ci \<and> checkOut a = Some co \<and> co < ci"
  then show "\<not> attendance_valid now a"
    by (simp add: attendance_valid_def)
next
  assume h: "req_staffId r = Given s \<and> req_action r = Some ''checkOut''
        \<and> find (\<lambda>m. staff_id m = s) staffs = Some m \<and> staff_isActive m
        \<and> record_date now r = Inr d \<and> record_time now tz d r = Inr t
        \<and> find (\<lambda>a. staffId a = s \<and> date a = d) xs = Some e
        \<and> checkIn e = Some ci \<and> checkOut e = None \<and> t < ci"
  then have "apply_action now s d t ''checkOut'' xs = (Inl Validation_failed, xs)"
    by (simp add: apply_action_def write_action_def attendance_valid_def)
  with h show "recordAttendance now tz staffs r xs = (Inl Validation_failed, xs)"
    by (simp add: recordAttendance_def)
next
  show "kind Validation_failed = VALIDATION" by simp
next
  assume h: "checkIn a = Some ci \<and> checkOut a = Some co"
  then have w: "workingHours up a = toFixed2 up (of_int (co - ci) / 3600000)"
    by (simp add: workingHours_def)
  show "\<bar>workingHours up a - of_int (co - ci) / 3600000\<bar> \<le> 1 / 200"
    unfolding w by (rule toFixed2_near)
  show "\<exists>k::int. workingHours up a = of_int k / 100"
    unfolding w by (rule toFixed2_hundredths)
next
  assume "checkIn a = None \<or> checkOut a = None"
  then show "workingHours up a = 0"
    by (auto simp: workingHours_def split: option.splits)
qed

theorem checkout_not_before_checkin_witness:
  "recordAttendance (june1 + 72000000) 0 crew (punch 1 ''checkOut'' 8)
       [present 1 (Some (june1 + 32400000)) None]
     = (Inl Validation_failed, [present 1 (Some (june1 + 32400000)) None])
   \<and> recordAttendance (june1 + 72000000) 0 crew (punch 1 ''checkOut'' 18)
       [present 1 (Some (june1 + 32400000)) None]
     = (Inr (present 1 (Some (june1 + 32400000)) (Some (june1 + 64800000))),
        [present 1 (Some (june1 + 32400000)) (Some (june1 + 64800000))])
   \<and> workingHours (\<lambda>_. True) (present 1 (Some (june1 + 32400000)) (Some (june1 + 64800000))) = 9
   \<and> workingHours (\<lambda>_. True) (present 1 (Some (june1 + 32400000)) None) = 0
   \<and> \<not> attendance_valid (june1 + 72000000)
         (present 1 (Some (june1 + 32400000)) (Some (june1 + 28800000)))"
proof -
  let ?now = "june1 + 72000000"
  let ?e = "present 1 (Some (june1 + 32400000)) None"
  let ?a = "present 1 (Some (june1 + 32400000)) (Some (june1 + 64800000))"
  let ?b = "present 1 (Some (june1 + 32400000)) (Some (june1 + 28800000))"
  note t = checkout_not_before_checkin
  have h: "req_staffId (punch 1 ''checkOut'' 8) = Given 1
        \<and> req_action (punch 1 ''checkOut'' 8) = Some ''checkOut''
        \<and> find (\<lambda>m. staff_id m = 1) crew = Some \<lparr>staff_id = 1, staff_isActive = True\<rparr>
        \<and> staff_isActive \<lparr>staff_id = 1, staff_isActive = True\<rparr>
        \<and> record_date ?now (punch 1 ''checkOut'' 8) = Inr june1
        \<and> record_time ?now 0 june1 (punch 1 ''checkOut'' 8) = Inr (june1 + 28800000)
        \<and> find (\<lambda>a. staffId a = 1 \<and> date a = june1) [?e] = Some ?e
        \<and> checkIn ?e = Some (june1 + 32400000) \<and> checkOut ?e = None
        \<and> june1 + 28800000 < june1 + 32400000"
    by (simp add: punch_def crew_def record_date_def record_time_def present_def
          setHours_def june1_def)
  from t[where r = "punch 1 ''checkOut'' 8" and s = 1 and staffs = crew and now = ?now
        and tz = 0 and d = june1 and t = "june1 + 28800000" and xs = "[?e]" and e = ?e
        and ci = "june1 + 32400000" and m = "\<lparr>staff_id = 1, staff_isActive = True\<rparr>"] h
  have r1: "recordAttendance ?now 0 crew (punch 1 ''checkOut'' 8) [?e]
              = (Inl Validation_failed, [?e])"
    by blast
  have r2: "recordAttendance ?now 0 crew (punch 1 ''checkOut'' 18) [?e] = (Inr ?a, [?a])"
    by (simp add: recordAttendance_def punch_def crew_def record_date_def record_time_def
          apply_action_def write_action_def attendance_valid_def present_def setHours_def
          june1_def Let_def)
  have ab: "checkIn ?a = Some (june1 + 32400000) \<and> checkOut ?a = Some (june1 + 64800000)"
    by (simp add: present_def)
  from t[where a = ?a and ci = "june1 + 32400000" and co = "june1 + 64800000" and up = "\<lambda>_. True"] ab
  have near: "\<bar>workingHours (\<lambda>_. True) ?a - of_int (june1 + 64800000 - (june1 + 32400000)) / 3600000\<bar>
                \<le> 1 / 200"
    and hund: "\<exists>k::int. workingHours (\<lambda>_. True) ?a = of_int k / 100"
    by blast+
  have nine: "of_int (june1 + 64800000 - (june1 + 32400000)) / 3600000 = (9::rat)"
    by simp
  from hund obtain k :: int where k: "workingHours (\<lambda>_. True) ?a = of_int k / 100" by blast
  from near have "\<bar>of_int k / 100 - (9::rat)\<bar> \<le> 1 / 200"
    unfolding k nine .
  then have "\<bar>(of_int k - 900) / (100::rat)\<bar> \<le> 1 / 200"
    by (simp add: field_simps)
  then have "\<bar>(of_int k - 900 :: rat)\<bar> \<le> 1 / 2"
    by (simp add: field_simps)
  then have "\<bar>of_int (k - 900) :: rat\<bar> < 1"
    by simp
  then have "\<bar>k - 900\<bar> < 1"
    by (metis of_int_abs of_int_less_1_iff)
  then have "k = 900" by simp
  with k have r3: "workingHours (\<lambda>_. True) ?a = 9" by simp
  have "checkIn ?e = None \<or> checkOut ?e = None"
    by (simp add: present_def)
  with t[where a = ?e and up = "\<lambda>_. True"] have r4: "workingHours (\<lambda>_. True) ?e = 0"
    by blast
  have "checkIn ?b = Some (june1 + 32400000) \<and> checkOut ?b = Some (june1 + 28800000)
          \<and> june1 + 28800000 < june1 + 32400000"
    by (simp add: present_def)
  with t[where a = ?b and now = ?now and ci = "june1 + 32400000" and co = "june1 + 28800000"]
  have r5: "\<not> attendance_valid ?now ?b"
    by blast
  from r1 r2 r3 r4 r5 show ?thesis by blast
qed

subsection \<open>Declaring a holiday\<close>

lemma upsert_keys: "set (map att_key (upsert_holiday d n xs s)) = insert (s, d) (set (map att_key xs))"
  by (induction xs) (auto simp: att_key_def holiday_record_def)

lemma upsert_distinct:
  "distinct (map att_key xs) \<Longrightarrow> distinct (map att_key (upsert_holiday d n xs s))"
proof (induction xs)
  case Nil
  show ?case by simp
next
  case (Cons r rs)
  show ?case
  proof (cases "staffId r = s \<and> date r = d")
    case True
    with Cons.prems show ?thesis by (simp add: att_key_def)
  next
    case False
    then have "att_key r \<noteq> (s, d)" by (auto simp: att_key_def)
    with Cons False show ?thesis
      using upsert_keys[of d n rs s] by auto
  qed
qed

lemma upsert_member: "holiday_record s d n \<in> set (upsert_holiday d n xs s)"
  by (induction xs) (auto simp: holiday_record_def)

lemma upsert_keeps:
  "a \<in> set xs \<Longrightarrow> att_key a \<noteq> (s, d) \<Longrightarrow> a \<in> set (upsert_holiday d n xs s)"
  by (induction xs) (auto simp: att_key_def)

lemma upsert_filter_others:
  assumes "\<And>a b. att_key a = att_key b \<Longrightarrow> Q a = Q b"
    and "\<And>a. att_key a = (s, d) \<Longrightarrow> \<not> Q a"
  shows "filter Q (upsert_holiday d n xs s) = filter Q xs"
proof (induction xs)
  case Nil
  have "att_key (holiday_record s d n) = (s, d)"
    by (simp add: att_key_def holiday_record_def)
  then show ?case using assms(2) by simp
next
  case (Cons r rs)
  show ?case
  proof (cases "staffId r = s \<and> date r = d")
    case True
    then have "att_key r = (s, d)"
      and "att_key (r\<lparr>att_status := Holiday, isHoliday := True, att_notes := Some n,
                       checkIn := None, checkOut := None\<rparr>) = (s, d)"
      by (simp_all add: att_key_def)
    with assms(2) True show ?thesis by simp
  next
    case False
    then have "upsert_holiday d n (r # rs) s = r # upsert_holiday d n rs s"
      by auto
    with Cons.IH show ?thesis by simp
  qed
qed

lemma fold_distinct:
  "distinct (map att_key xs) \<Longrightarrow> distinct (map att_key (foldl (upsert_holiday d n) xs ids))"
  by (induction ids arbitrary: xs) (simp_all add: upsert_distinct)

lemma fold_keeps:
  "a \<in> set xs \<Longrightarrow> staffId a \<notin> set ids \<or> date a \<noteq> d \<Longrightarrow>
     a \<in> set (foldl (upsert_holiday d n) xs ids)"
proof (induction ids arbitrary: xs)
  case Nil
  then show ?case by simp
next
  case (Cons i ids)
  from Cons.prems have "att_key a \<noteq> (i, d)"
    by (auto simp: att_key_def)
  with Cons.prems have "a \<in> set (upsert_holiday d n xs i)"
    by (simp add: upsert_keeps)
  with Cons show ?case by auto
qed

lemma fold_member:
  "distinct ids \<Longrightarrow> s \<in> set ids \<Longrightarrow>
     holiday_record s d n \<in> set (foldl (upsert_holiday d n) xs ids)"
proof (induction ids arbitrary: xs)
  case Nil
  then show ?case by simp
next
  case (Cons i ids)
  show ?case
  proof (cases "s = i")
    case True
    with Cons.prems have "staffId (holiday_record s d n) \<notin> set ids"
      by (simp add: holiday_record_def)
    with True show ?thesis
      using fold_keeps[of "holiday_record s d n" "upsert_holiday d n xs i" ids d n]
      by (simp add: upsert_member)
  next
    case False
    with Cons show ?thesis by simp
  qed
qed

lemma fold_filter_others:
  "filter (\<lambda>a. \<not> (date a = d \<and> staffId a \<in> set ids)) (foldl (upsert_holiday d n) xs js)
     = filter (\<lambda>a. \<not> (date a = d \<and> staffId a \<in> set ids)) xs"
  if "set js \<subseteq> set ids"
  using that
proof (induction js arbitrary: xs)
  case Nil
  show ?case by simp
next
  case (Cons j js)
  have "filter (\<lambda>a. \<not> (date a = d \<and> staffId a \<in> set ids)) (upsert_holiday d n xs j)
          = filter (\<lambda>a. \<not> (date a = d \<and> staffId a \<in> set ids)) xs"
    by (rule upsert_filter_others) (use Cons.prems in \<open>auto simp: att_key_def\<close>)
  with Cons show ?case by simp
qed

lemma filter_key_single:
  "distinct (map att_key ys) \<Longrightarrow> h \<in> set ys \<Longrightarrow> filter (\<lambda>a. att_key a = att_key h) ys = [h]"
proof (induction ys)
  case Nil
  then show ?case by simp
next
  case (Cons y ys)
  show ?case
  proof (cases "y = h")
    case True
    with Cons.prems have "att_key h \<notin> att_key ` set ys"
      by simp
    then have "\<forall>a \<in> set ys. att_key a \<noteq> att_key h"
      by (metis image_eqI)
    then have "filter (\<lambda>a. att_key a = att_key h) ys = []"
      by (simp add: filter_empty_conv)
    with True show ?thesis by simp
  next
    case False
    with Cons.prems have "h \<in> set ys" by simp
    with Cons.prems have "att_key y \<noteq> att_key h"
      by (metis distinct.simps(2) image_eqI list.simps(9) set_map)
    with Cons \<open>h \<in> set ys\<close> show ?thesis by simp
  qed
qed

lemma distinct_mapD: "distinct (map f xs) \<Longrightarrow> distinct xs"
  by (induction xs) auto

lemma count_active_records:
  assumes dk: "distinct (map att_key ys)" and di: "distinct ids"
    and ex: "\<And>s. s \<in> set ids \<Longrightarrow> \<exists>a \<in> set ys. att_key a = (s, d)"
  shows "length (filter (\<lambda>a. date a = d \<and> staffId a \<in> set ids) ys) = length ids"
proof -
  let ?zs = "filter (\<lambda>a. date a = d \<and> staffId a \<in> set ids) ys"
  have "distinct (map att_key ?zs)"
    using dk by (rule distinct_map_filter)
  moreover have "map att_key ?zs = map (\<lambda>a. (staffId a, d)) ?zs"
    by (rule map_cong) (auto simp: att_key_def)
  ultimately have "distinct (map (\<lambda>a. (staffId a, d)) ?zs)" by simp
  then have "distinct (map (\<lambda>s. (s, d)) (map staffId ?zs))" by (simp add: comp_def)
  then have ds: "distinct (map staffId ?zs)"
    by (rule distinct_mapD)
  have "set (map staffId ?zs) = set ids"
  proof
    show "set (map staffId ?zs) \<subseteq> set ids" by auto
    show "set ids \<subseteq> set (map staffId ?zs)"
    proof
      fix s assume "s \<in> set ids"
      with ex obtain a where "a \<in> set ys" "att_key a = (s, d)" by blast
      with \<open>s \<in> set ids\<close> have "a \<in> set ?zs" "staffId a = s"
        by (auto simp: att_key_def)
      then show "s \<in> set (map staffId ?zs)" by force
    qed
  qed
  with ds di have "length (map staffId ?zs) = length ids"
    by (metis distinct_card)
  then show ?thesis by simp
qed

lemma upsert_again: "upsert_holiday d n' (upsert_holiday d n xs s) s = upsert_holiday d n' xs s"
  by (induction xs) (auto simp: holiday_record_def)

lemma upsert_swap:
  assumes "s \<noteq> s'" and "(s, d) \<in> set (map att_key ys)"
  shows "upsert_holiday d a (upsert_holiday d b ys s') s
           = upsert_holiday d b (upsert_holiday d a ys s) s'"
  using assms(2)
proof (induction ys)
  case Nil
  then show ?case by simp
next
  case (Cons r rs)
  consider "staffId r = s \<and> date r = d" | "staffId r = s' \<and> date r = d"
    | "\<not> (staffId r = s \<and> date r = d) \<and> \<not> (staffId r = s' \<and> date r = d)"
    by blast
  then show ?case
  proof cases
    case 1
    let ?r = "r\<lparr>att_status := Holiday, isHoliday := True, att_notes := Some a,
                 checkIn := None, checkOut := None\<rparr>"
    from 1 assms(1) have n: "\<not> (staffId r = s' \<and> date r = d)" by auto
    from n have "upsert_holiday d b (r # rs) s' = r # upsert_holiday d b rs s'" by auto
    with 1 have l: "upsert_holiday d a (upsert_holiday d b (r # rs) s') s
                      = ?r # upsert_holiday d b rs s'" by simp
    from 1 have "upsert_holiday d a (r # rs) s = ?r # rs" by simp
    moreover from n have "\<not> (staffId ?r = s' \<and> date ?r = d)" by simp
    ultimately have "upsert_holiday d b (upsert_holiday d a (r # rs) s) s'
                      = ?r # upsert_holiday d b rs s'" by auto
    with l show ?thesis by simp
  next
    case 2
    let ?r = "r\<lparr>att_status := Holiday, isHoliday := True, att_notes := Some b,
                 checkIn := None, checkOut := None\<rparr>"
    from 2 assms(1) have n: "\<not> (staffId r = s \<and> date r = d)" by auto
    from 2 have "upsert_holiday d b (r # rs) s' = ?r # rs" by simp
    moreover from n have "\<not> (staffId ?r = s \<and> date ?r = d)" by simp
    ultimately have l: "upsert_holiday d a (upsert_holiday d b (r # rs) s') s
                      = ?r # upsert_holiday d a rs s" by auto
    from n have "upsert_holiday d a (r # rs) s = r # upsert_holiday d a rs s" by auto
    with 2 have "upsert_holiday d b (upsert_holiday d a (r # rs) s) s'
                      = ?r # upsert_holiday d a rs s" by simp
    with l show ?thesis by simp
  next
    case 3
    with Cons.prems have "(s, d) \<in> set (map att_key rs)"
      by (auto simp: att_key_def)
    with 3 Cons.IH show ?thesis by auto
  qed
qed

lemma upsert_through_fold:
  assumes "s \<notin> set js" and "(s, d) \<in> set (map att_key ys)"
  shows "upsert_holiday d a (foldl (upsert_holiday d b) ys js) s
           = foldl (upsert_holiday d b) (upsert_holiday d a ys s) js"
  using assms
proof (induction js arbitrary: ys)
  case Nil
  show ?case by simp
next
  case (Cons j js)
  from Cons.prems have sj: "s \<noteq> j" and nin: "s \<notin> set js" by auto
  have k: "(s, d) \<in> set (map att_key (upsert_holiday d b ys j))"
    using Cons.prems(2) upsert_keys[of d b ys j] by auto
  have "upsert_holiday d a (foldl (upsert_holiday d b) (upsert_holiday d b ys j) js) s
          = foldl (upsert_holiday d b) (upsert_holiday d a (upsert_holiday d b ys j) s) js"
    using nin k by (rule Cons.IH)
  also have "upsert_holiday d a (upsert_holiday d b ys j) s
               = upsert_holiday d b (upsert_holiday d a ys s) j"
    using sj Cons.prems(2) by (rule upsert_swap)
  finally show ?case by simp
qed

lemma redeclare_fold:
  "distinct ids \<Longrightarrow>
     foldl (upsert_holiday d n') (foldl (upsert_holiday d n) xs ids) ids
       = foldl (upsert_holiday d n') xs ids"
proof (induction ids arbitrary: xs)
  case Nil
  show ?case by simp
next
  case (Cons i ids)
  then have nin: "i \<notin> set ids" and di: "distinct ids" by auto
  have k: "(i, d) \<in> set (map att_key (upsert_holiday d n xs i))"
    using upsert_keys[of d n xs i] by auto
  have "foldl (upsert_holiday d n') (foldl (upsert_holiday d n) xs (i # ids)) (i # ids)
          = foldl (upsert_holiday d n')
              (upsert_holiday d n' (foldl (upsert_holiday d n) (upsert_holiday d n xs i) ids) i) ids"
    by simp
  also have "upsert_holiday d n' (foldl (upsert_holiday d n) (upsert_holiday d n xs i) ids) i
               = foldl (upsert_holiday d n) (upsert_holiday d n' (upsert_holiday d n xs i) i) ids"
    using nin k by (rule upsert_through_fold)
  also have "upsert_holiday d n' (upsert_holiday d n xs i) i = upsert_holiday d n' xs i"
    by (rule upsert_again)
  also have "foldl (upsert_holiday d n') (foldl (upsert_holiday d n) (upsert_holiday d n' xs i) ids) ids
               = foldl (upsert_holiday d n') (upsert_holiday d n' xs i) ids"
    using di by (rule Cons.IH)
  finally show ?case by simp
qed

lemma active_ids_distinct: "distinct (map staff_id staffs) \<Longrightarrow> distinct (active_ids staffs)"
  unfolding active_ids_def by (rule distinct_map_filter)

text \<open>
  C9, as stated.  Staff member 1 is active and staff member 2 is not; member 2 has a
  holiday record for 2024-06-01 from an earlier declaration.  After the holiday is declared
  for that day there are two attendance records for it, both with status Holiday, and one
  active staff member.
\<close>

theorem holiday_leaves_inactive_records:
  "length (records_on june1
       (snd (declareHoliday (june1 + 72000000) crew \<lparr>hol_date = Given june1, hol_notes = None\<rparr>
               [holiday_record 2 june1 ''Public Holiday'']))) = 2
   \<and> list_all (\<lambda>a. att_status a = Holiday)
       (records_on june1
         (snd (declareHoliday (june1 + 72000000) crew \<lparr>hol_date = Given june1, hol_notes = None\<rparr>
               [holiday_record 2 june1 ''Public Holiday''])))
   \<and> length (filter staff_isActive crew) = 1"
  by (simp add: declareHoliday_def crew_def records_on_def getCurrentUTCDate_def
        june1_def holiday_notes_def holiday_record_def)

text \<open>
  C9, amended.  Staff ids are unique, and so are the staff-and-day keys of the stored
  records.  A date before the current UTC day is refused with a VALIDATION failure and the
  store stays as it was.  For any other date, after the declaration every active staff
  member has exactly one record for that date, and it has status Holiday, the holiday
  flag, the notes of the request and neither check-in nor check-out, whatever it held
  before; these are as many records as there are active staff; every record of another
  day or of a staff member who is not active is as before; and declaring the same date
  again, with any notes, leaves the store that a single declaration with those notes gives.
\<close>

theorem declare_holiday_upserts:
  assumes "distinct (map staff_id staffs)" and "distinct (map att_key xs)"
  shows "(hol_date r = Given d \<and> d < getCurrentUTCDate now \<longrightarrow>
            (\<exists>e. declareHoliday now staffs r xs = (Inl e, xs) \<and> kind e = VALIDATION))
       \<and> (hol_date r = Given d \<and> getCurrentUTCDate now \<le> d \<longrightarrow>
            (\<forall>s. s \<in> set (active_ids staffs) \<longrightarrow>
               filter (\<lambda>a. staffId a = s \<and> date a = d) (snd (declareHoliday now staffs r xs))
                 = [\<lparr>staffId = s, date = d, checkIn = None, checkOut = None,
                     att_status = Holiday, isHoliday = True,
                     att_notes = Some (holiday_notes r)\<rparr>])
            \<and> length (filter (\<lambda>a. date a = d \<and> staffId a \<in> set (active_ids staffs))
                        (snd (declareHoliday now staffs r xs)))
                = length (filter staff_isActive staffs)
            \<and> filter (\<lambda>a. \<not> (date a = d \<and> staffId a \<in> set (active_ids staffs)))
                        (snd (declareHoliday now staffs r xs))
                = filter (\<lambda>a. \<not> (date a = d \<and> staffId a \<in> set (active_ids staffs))) xs
            \<and> (hol_date r' = Given d \<longrightarrow>
                 snd (declareHoliday now staffs r' (snd (declareHoliday now staffs r xs)))
                   = snd (declareHoliday now staffs r' xs)))"
proof (intro conjI impI allI)
  assume "hol_date r = Given d \<and> d < getCurrentUTCDate now"
  then show "\<exists>e. declareHoliday now staffs r xs = (Inl e, xs) \<and> kind e = VALIDATION"
    by (simp add: declareHoliday_def)
next
  let ?ids = "active_ids staffs"
  let ?ys = "foldl (upsert_holiday d (holiday_notes r)) xs ?ids"
  assume h: "hol_date r = Given d \<and> getCurrentUTCDate now \<le> d"
  then have ys: "snd (declareHoliday now staffs r xs) = ?ys"
    by (simp add: declareHoliday_def active_ids_def Let_def)
  have di: "distinct ?ids"
    using assms(1) by (rule active_ids_distinct)
  have dk: "distinct (map att_key ?ys)"
    using assms(2) by (rule fold_distinct)
  {
    fix s assume s: "s \<in> set ?ids"
    let ?h = "holiday_record s d (holiday_notes r)"
    have "?h \<in> set ?ys"
      using di s by (rule fold_member)
    with dk have "filter (\<lambda>a. att_key a = att_key ?h) ?ys = [?h]"
      by (rule filter_key_single)
    moreover have "(\<lambda>a. att_key a = att_key ?h) = (\<lambda>a. staffId a = s \<and> date a = d)"
      by (auto simp: att_key_def holiday_record_def)
    ultimately show "filter (\<lambda>a. staffId a = s \<and> date a = d) (snd (declareHoliday now staffs r xs))
                 = [\<lparr>staffId = s, date = d, checkIn = None, checkOut = None,
                     att_status = Holiday, isHoliday = True,
                     att_notes = Some (holiday_notes r)\<rparr>]"
      unfolding ys by (simp add: holiday_record_def)
  }
  have "length (filter (\<lambda>a. date a = d \<and> staffId a \<in> set ?ids) ?ys) = length ?ids"
  proof (rule count_active_records[OF dk di])
    fix s assume "s \<in> set ?ids"
    with di have "holiday_record s d (holiday_notes r) \<in> set ?ys"
      by (rule fold_member)
    moreover have "att_key (holiday_record s d (holiday_notes r)) = (s, d)"
      by (simp add: att_key_def holiday_record_def)
    ultimately show "\<exists>a \<in> set ?ys. att_key a = (s, d)" by blast
  qed
  then show "length (filter (\<lambda>a. date a = d \<and> staffId a \<in> set ?ids)
                        (snd (declareHoliday now staffs r xs)))
                = length (filter staff_isActive staffs)"
    unfolding ys by (simp add: active_ids_def)
  show "filter (\<lambda>a. \<not> (date a = d \<and> staffId a \<in> set ?ids)) (snd (declareHoliday now staffs r xs))
          = filter (\<lambda>a. \<not> (date a = d \<and> staffId a \<in> set ?ids)) xs"
    unfolding ys by (rule fold_filter_others) simp
  assume "hol_date r' = Given d"
  with h show "snd (declareHoliday now staffs r' (snd (declareHoliday now staffs r xs)))
                 = snd (declareHoliday now staffs r' xs)"
    using redeclare_fold[OF di, of d "holiday_notes r'" "holiday_notes r" xs]
    by (simp add: declareHoliday_def active_ids_def Let_def)
qed

theorem declare_holiday_upserts_witness:
  "distinct (map staff_id crew)
   \<and> distinct (map att_key [present 2 (Some (june1 + 32400000)) None,
                             present 1 (Some (june1 + 32400000)) None])
   \<and> fst (declareHoliday (june1 + 72000000) crew
            \<lparr>hol_date = Given (june1 - 86400000), hol_notes = None\<rparr>
            [present 2 (Some (june1 + 32400000)) None, present 1 (Some (june1 + 32400000)) None])
       = Inl Past_holiday
   \<and> snd (declareHoliday (june1 + 72000000) crew
            \<lparr>hol_date = Given (june1 - 86400000), hol_notes = None\<rparr>
            [present 2 (Some (june1 + 32400000)) None, present 1 (Some (june1 + 32400000)) None])
       = [present 2 (Some (june1 + 32400000)) None, present 1 (Some (june1 + 32400000)) None]
   \<and> filter (\<lambda>a. staffId a = 1 \<and> date a = june1)
        (snd (declareHoliday (june1 + 72000000) crew \<lparr>hol_date = Given june1, hol_notes = None\<rparr>
           [present 2 (Some (june1 + 32400000)) None, present 1 (Some (june1 + 32400000)) None]))
       = [\<lparr>staffId = 1, date = june1, checkIn = None, checkOut = None,
           att_status = Holiday, isHoliday = True, att_notes = Some ''Public Holiday''\<rparr>]
   \<and> length (filter (\<lambda>a. date a = june1 \<and> staffId a \<in> set (active_ids crew))
        (snd (declareHoliday (june1 + 72000000) crew \<lparr>hol_date = Given june1, hol_notes = None\<rparr>
           [present 2 (Some (june1 + 32400000)) None, present 1 (Some (june1 + 32400000)) None])))
       = 1
   \<and> snd (declareHoliday (june1 + 72000000) crew
            \<lparr>hol_date = Given june1, hol_notes = Some ''Founders day''\<rparr>
            (snd (declareHoliday (june1 + 72000000) crew
                    \<lparr>hol_date = Given june1, hol_notes = None\<rparr>
                    [present 2 (Some (june1 + 32400000)) None,
                     present 1 (Some (june1 + 32400000)) None])))
       = [present 2 (Some (june1 + 32400000)) None,
          \<lparr>staffId = 1, date = june1, checkIn = None, checkOut = None,
           att_status = Holiday, isHoliday = True, att_notes = Some ''Founders day''\<rparr>]"
proof -
  let ?now = "june1 + 72000000"
  let ?xs = "[present 2 (Some (june1 + 32400000)) None, present 1 (Some (june1 + 32400000)) None]"
  let ?past = "\<lparr>hol_date = Given (june1 - 86400000), hol_notes = None\<rparr>"
  let ?r = "\<lparr>hol_date = Given june1, hol_notes = None\<rparr>"
  let ?r' = "\<lparr>hol_date = Given june1, hol_notes = Some ''Founders day''\<rparr>"
  have d1: "distinct (map staff_id crew)"
    by (simp add: crew_def)
  have d2: "distinct (map att_key ?xs)"
    by (simp add: att_key_def present_def)
  note t = declare_holiday_upserts[OF d1 d2]
  have p: "hol_date ?past = Given (june1 - 86400000)
           \<and> june1 - 86400000 < getCurrentUTCDate ?now"
    by (simp add: getCurrentUTCDate_def june1_def)
  have q: "hol_date ?r = Given june1 \<and> getCurrentUTCDate ?now \<le> june1"
    by (simp add: getCurrentUTCDate_def june1_def)
  have q': "hol_date ?r' = Given june1"
    by simp
  have a1: "(1::nat) \<in> set (active_ids crew)"
    by (simp add: active_ids_def crew_def)
  have n: "holiday_notes ?r = ''Public Holiday''"
    by (simp add: holiday_notes_def)
  have c: "length (filter staff_isActive crew) = 1"
    by (simp add: crew_def)
  from t[where r = ?past and d = "june1 - 86400000" and now = ?now] p
  obtain e where e: "declareHoliday ?now crew ?past ?xs = (Inl e, ?xs)"
    by blast
  have "fst (declareHoliday ?now crew ?past ?xs) = Inl Past_holiday"
    by (simp add: declareHoliday_def getCurrentUTCDate_def june1_def)
  with e have r1: "fst (declareHoliday ?now crew ?past ?xs) = Inl Past_holiday"
    and r2: "snd (declareHoliday ?now crew ?past ?xs) = ?xs"
    by simp_all
  from t[where r = ?r and d = june1 and now = ?now and r' = ?r'] q q' a1
  have r3: "filter (\<lambda>a. staffId a = 1 \<and> date a = june1) (snd (declareHoliday ?now crew ?r ?xs))
              = [\<lparr>staffId = 1, date = june1, checkIn = None, checkOut = None,
                  att_status = Holiday, isHoliday = True,
                  att_notes = Some (holiday_notes ?r)\<rparr>]"
    and r4: "length (filter (\<lambda>a. date a = june1 \<and> staffId a \<in> set (active_ids crew))
                (snd (declareHoliday ?now crew ?r ?xs))) = length (filter staff_isActive crew)"
    and r5: "snd (declareHoliday ?now crew ?r' (snd (declareHoliday ?now crew ?r ?xs)))
               = snd (declareHoliday ?now crew ?r' ?xs)"
    by blast+
  have "snd (declareHoliday ?now crew ?r' ?xs)
          = [present 2 (Some (june1 + 32400000)) None,
             \<lparr>staffId = 1, date = june1, checkIn = None, checkOut = None,
              att_status = Holiday, isHoliday = True, att_notes = Some ''Founders day''\<rparr>]"
    by (simp add: declareHoliday_def crew_def present_def getCurrentUTCDate_def june1_def
          holiday_notes_def)
  with r5 have r6: "snd (declareHoliday ?now crew ?r' (snd (declareHoliday ?now crew ?r ?xs)))
          = [present 2 (Some (june1 + 32400000)) None,
             \<lparr>staffId = 1, date = june1, checkIn = None, checkOut = None,
              att_status = Holiday, isHoliday = True, att_notes = Some ''Founders day''\<rparr>]"
    by simp
  from d1 d2 r1 r2 r3[unfolded n] r4[unfolded c] r6 show ?thesis
    by blast
qed

end
